theory Spec2Isabelle
  imports Main "HOL-Library.Sublist" "HOL-Library.Char_ord" "HOL-Library.List_Lexorder"
begin

section \<open>Text primitives of the Python runtime\<close>

text \<open>
  The hooks work on Python \<open>str\<close> values.  A character is modelled as a \<^typ>\<open>char\<close>
  read as a code point below 256 (the Latin-1 range of Unicode), so every statement
  below is about texts made of such code points.  The character classes are those of
  CPython for that range: \<open>str.isspace\<close> and the pattern class \<open>\s\<close> agree, \<open>\w\<close> is
  alphanumeric-or-underscore, \<open>\d\<close> is the ten ASCII digits.
\<close>

definition code :: "char \<Rightarrow> nat" where
  "code c = of_char c"

definition is_space :: "char \<Rightarrow> bool" where
  "is_space c = (let n = code c in (9 \<le> n \<and> n \<le> 13) \<or> (28 \<le> n \<and> n \<le> 32) \<or> n = 133 \<or> n = 160)"

definition is_linebreak :: "char \<Rightarrow> bool" where
  "is_linebreak c = (let n = code c in (10 \<le> n \<and> n \<le> 13) \<or> (28 \<le> n \<and> n \<le> 30) \<or> n = 133)"

definition is_digit :: "char \<Rightarrow> bool" where
  "is_digit c = (let n = code c in 48 \<le> n \<and> n \<le> 57)"

definition is_word :: "char \<Rightarrow> bool" where
  "is_word c = (let n = code c in
     (48 \<le> n \<and> n \<le> 57) \<or> (65 \<le> n \<and> n \<le> 90) \<or> n = 95 \<or> (97 \<le> n \<and> n \<le> 122) \<or>
     n = 170 \<or> n = 178 \<or> n = 179 \<or> n = 181 \<or> n = 185 \<or> n = 186 \<or>
     (188 \<le> n \<and> n \<le> 190) \<or> (192 \<le> n \<and> n \<le> 214) \<or> (216 \<le> n \<and> n \<le> 246) \<or>
     (248 \<le> n \<and> n \<le> 255))"

definition lower_char :: "char \<Rightarrow> char" where
  "lower_char c = (let n = code c in
     if (65 \<le> n \<and> n \<le> 90) \<or> (192 \<le> n \<and> n \<le> 222 \<and> n \<noteq> 215) then char_of (n + 32) else c)"

definition lower :: "string \<Rightarrow> string" where
  "lower s = map lower_char s"

text \<open>
  \<open>str.upper\<close>: sharp s (223) becomes \<open>SS\<close>.  The images of code points 181 and 255
  lie above 255; they stand for themselves here, which no test of the program can
  observe, because the upper-cased line is only searched for ASCII text.
\<close>

definition upper_char :: "char \<Rightarrow> string" where
  "upper_char c = (let n = code c in
     if (97 \<le> n \<and> n \<le> 122) \<or> (224 \<le> n \<and> n \<le> 254 \<and> n \<noteq> 247) then [char_of (n - 32)]
     else if n = 223 then ''SS'' else [c])"

definition upper :: "string \<Rightarrow> string" where
  "upper s = concat (map upper_char s)"

definition lstrip :: "string \<Rightarrow> string" where
  "lstrip s = dropWhile is_space s"

definition strip :: "string \<Rightarrow> string" where
  "strip s = rev (dropWhile is_space (rev (dropWhile is_space s)))"

definition startswith :: "string \<Rightarrow> string \<Rightarrow> bool" where
  "startswith s p = prefix p s"

definition endswith :: "string \<Rightarrow> string \<Rightarrow> bool" where
  "endswith s p = suffix p s"

text \<open>\<open>sub in s\<close> on strings: \<open>sub\<close> occurs in \<open>s\<close> as a contiguous run.\<close>

fun contains :: "string \<Rightarrow> string \<Rightarrow> bool" where
  "contains sub [] = (sub = [])"
| "contains sub (c # cs) = (prefix sub (c # cs) \<or> contains sub cs)"

fun count_char :: "char \<Rightarrow> string \<Rightarrow> nat" where
  "count_char a [] = 0"
| "count_char a (c # cs) = (if c = a then Suc (count_char a cs) else count_char a cs)"

fun join :: "string \<Rightarrow> string list \<Rightarrow> string" where
  "join sep [] = []"
| "join sep [x] = x"
| "join sep (x # y # ys) = x @ sep @ join sep (y # ys)"

text \<open>\<open>s.split(c)\<close> for a one-character separator: never empty, keeps empty pieces.\<close>

fun split_char :: "char \<Rightarrow> string \<Rightarrow> string list" where
  "split_char a [] = [[]]"
| "split_char a (c # cs) =
     (if c = a then [] # split_char a cs
      else (case split_char a cs of [] \<Rightarrow> [[c]] | w # ws \<Rightarrow> (c # w) # ws))"

text \<open>
  \<open>str.splitlines\<close>: a line ends at any line-boundary character, carriage return plus
  line feed counts once, and a final boundary opens no further line.  The first
  argument holds the current line, reversed.
\<close>

fun splitlines_aux :: "string \<Rightarrow> string \<Rightarrow> string list" where
  "splitlines_aux cur [] = (if cur = [] then [] else [rev cur])"
| "splitlines_aux cur [c] = (if is_linebreak c then [rev cur] else [rev (c # cur)])"
| "splitlines_aux cur (c # d # cs) =
     (if c = CHR 0x0D \<and> d = CHR 0x0A then rev cur # splitlines_aux [] cs
      else if is_linebreak c then rev cur # splitlines_aux [] (d # cs)
      else splitlines_aux (c # cur) (d # cs))"

definition splitlines :: "string \<Rightarrow> string list" where
  "splitlines s = splitlines_aux [] s"

text \<open>\<open>os.path.basename\<close> of the POSIX flavour: what follows the last slash.\<close>

definition basename :: "string \<Rightarrow> string" where
  "basename p = rev (takeWhile (\<lambda>c. c \<noteq> CHR ''/'') (rev p))"

text \<open>Decimal rendering of a natural number, as \<open>str(i)\<close> or \<open>{i}\<close> in an f-string.\<close>

definition digit_char :: "nat \<Rightarrow> char" where
  "digit_char d = char_of (48 + d)"

fun str_nat :: "nat \<Rightarrow> string" where
  "str_nat n = (if n < 10 then [digit_char n] else str_nat (n div 10) @ [digit_char (n mod 10)])"

declare str_nat.simps [simp del]

text \<open>\<open>int(s)\<close> for a run of ASCII digits.\<close>

definition int_of_digits :: "string \<Rightarrow> nat" where
  "int_of_digits s = foldl (\<lambda>acc c. 10 * acc + (code c - 48)) 0 s"

abbreviation sq :: string where "sq \<equiv> [CHR 0x27]"
abbreviation dq :: string where "dq \<equiv> [CHR 0x22]"
abbreviation bs :: string where "bs \<equiv> [CHR 0x5C]"
abbreviation nl :: string where "nl \<equiv> [CHR 0x0A]"


section \<open>A backtracking matcher for the patterns of the program\<close>

text \<open>
  Python's \<open>re\<close> explores alternatives in priority order (greedy repetition first, left
  alternative first) and reports the first success.  The matcher returns every success
  in that order, so its head is Python's answer.  A matcher state is the character just
  before the current position (for the word boundary), the text still to read, and the
  groups captured so far.  Repetition is only ever applied to a single character class
  in the program's patterns, and the constructors reflect that.
\<close>

datatype cls =
    CSpace | CWord | CDigit | CDot
  | CAnyOf string | CNoneOf string
  | CRange char char
  | CUnion cls cls

fun in_cls :: "cls \<Rightarrow> char \<Rightarrow> bool" where
  "in_cls CSpace c = is_space c"
| "in_cls CWord c = is_word c"
| "in_cls CDigit c = is_digit c"
| "in_cls CDot c = (c \<noteq> CHR 0x0A)"
| "in_cls (CAnyOf s) c = (c \<in> set s)"
| "in_cls (CNoneOf s) c = (c \<notin> set s)"
| "in_cls (CRange a b) c = (code a \<le> code c \<and> code c \<le> code b)"
| "in_cls (CUnion x y) c = (in_cls x c \<or> in_cls y c)"

datatype regex =
    Eps
  | Lit string
  | LitI string
  | Cls cls
  | Star cls
  | Plus cls
  | Opt regex
  | Alt regex regex
  | Seq regex regex
  | Grp nat regex
  | WordB

type_synonym mstate = "char option \<times> string \<times> (nat \<times> string) list"

fun lit_states :: "(char \<Rightarrow> char \<Rightarrow> bool) \<Rightarrow> string \<Rightarrow> mstate \<Rightarrow> mstate list" where
  "lit_states eq [] st = [st]"
| "lit_states eq (a # as) (p, [], g) = []"
| "lit_states eq (a # as) (p, x # xs, g) =
     (if eq a x then lit_states eq as (Some x, xs, g) else [])"

definition ci_eq :: "char \<Rightarrow> char \<Rightarrow> bool" where
  "ci_eq a x = (lower_char a = lower_char x)"

fun star_states :: "cls \<Rightarrow> mstate \<Rightarrow> mstate list" where
  "star_states c (p, [], g) = [(p, [], g)]"
| "star_states c (p, x # xs, g) =
     (if in_cls c x then star_states c (Some x, xs, g) @ [(p, x # xs, g)]
      else [(p, x # xs, g)])"

fun cls_states :: "cls \<Rightarrow> mstate \<Rightarrow> mstate list" where
  "cls_states c (p, [], g) = []"
| "cls_states c (p, x # xs, g) = (if in_cls c x then [(Some x, xs, g)] else [])"

fun plus_states :: "cls \<Rightarrow> mstate \<Rightarrow> mstate list" where
  "plus_states c (p, [], g) = []"
| "plus_states c (p, x # xs, g) = (if in_cls c x then star_states c (Some x, xs, g) else [])"

definition is_word_opt :: "char option \<Rightarrow> bool" where
  "is_word_opt p = (case p of None \<Rightarrow> False | Some c \<Rightarrow> is_word c)"

fun wordb_states :: "mstate \<Rightarrow> mstate list" where
  "wordb_states (p, [], g) = (if is_word_opt p then [(p, [], g)] else [])"
| "wordb_states (p, x # xs, g) = (if is_word_opt p \<noteq> is_word x then [(p, x # xs, g)] else [])"

fun capture :: "nat \<Rightarrow> string \<Rightarrow> mstate \<Rightarrow> mstate" where
  "capture n s (p, s', g) = (p, s', (n, take (length s - length s') s) # g)"

fun rmatch :: "regex \<Rightarrow> mstate \<Rightarrow> mstate list" where
  "rmatch Eps st = [st]"
| "rmatch (Lit l) st = lit_states (=) l st"
| "rmatch (LitI l) st = lit_states ci_eq l st"
| "rmatch (Cls c) st = cls_states c st"
| "rmatch (Star c) st = star_states c st"
| "rmatch (Plus c) st = plus_states c st"
| "rmatch (Opt r) st = rmatch r st @ [st]"
| "rmatch (Alt a b) st = rmatch a st @ rmatch b st"
| "rmatch (Seq a b) st = concat (map (rmatch b) (rmatch a st))"
| "rmatch (Grp n r) st = map (capture n (fst (snd st))) (rmatch r st)"
| "rmatch WordB st = wordb_states st"

fun seqs :: "regex list \<Rightarrow> regex" where
  "seqs [] = Eps"
| "seqs (r # rs) = Seq r (seqs rs)"

fun alts :: "regex list \<Rightarrow> regex" where
  "alts [] = Lit []"
| "alts [r] = r"
| "alts (r # q # rs) = Alt r (alts (q # rs))"

text \<open>A match object: here the final matcher state; \<open>group n\<close> is \<open>None\<close> for a group
  that took no part in the match.\<close>

definition group :: "mstate \<Rightarrow> nat \<Rightarrow> string option" where
  "group st n = map_of (snd (snd st)) n"

text \<open>The text of a group where the program uses it as a string (every such group
  takes part in any match of its pattern), and the truth value of a match object.\<close>

definition group_str :: "mstate \<Rightarrow> nat \<Rightarrow> string" where
  "group_str st n = (case group st n of None \<Rightarrow> [] | Some g \<Rightarrow> g)"

definition matches :: "mstate option \<Rightarrow> bool" where
  "matches m = (m \<noteq> None)"

definition first_state :: "mstate list \<Rightarrow> mstate option" where
  "first_state sts = (case sts of [] \<Rightarrow> None | st # _ \<Rightarrow> Some st)"

text \<open>\<open>re.match\<close>: anchored at the start of the text.\<close>

definition re_match :: "regex \<Rightarrow> string \<Rightarrow> mstate option" where
  "re_match r s = first_state (rmatch r (None, s, []))"

text \<open>\<open>re.search\<close>: the leftmost start position that admits a match.\<close>

fun search_from :: "regex \<Rightarrow> char option \<Rightarrow> string \<Rightarrow> mstate option" where
  "search_from r p [] = first_state (rmatch r (p, [], []))"
| "search_from r p (c # cs) =
     (case rmatch r (p, c # cs, []) of
        st # _ \<Rightarrow> Some st
      | [] \<Rightarrow> search_from r (Some c) cs)"

definition re_search :: "regex \<Rightarrow> string \<Rightarrow> mstate option" where
  "re_search r s = search_from r None s"

text \<open>
  \<open>re.findall\<close> for a pattern with one group: the group's text for each match, the
  matches taken left to right without overlap.  After a match of \<open>k\<close> characters the
  scan resumes \<open>k\<close> characters on (the counter skips the characters already consumed).
  The three patterns the program passes to \<open>findall\<close> all need at least one character.
\<close>

fun findall_from :: "regex \<Rightarrow> nat \<Rightarrow> char option \<Rightarrow> string \<Rightarrow> string list" where
  "findall_from r k p [] =
     (if k = 0 then (case rmatch r (p, [], []) of [] \<Rightarrow> [] | st # _ \<Rightarrow> [group_str st 1]) else [])"
| "findall_from r (Suc k) p (c # cs) = findall_from r k (Some c) cs"
| "findall_from r 0 p (c # cs) =
     (case rmatch r (p, c # cs, []) of
        [] \<Rightarrow> findall_from r 0 (Some c) cs
      | st # _ \<Rightarrow> group_str st 1 # findall_from r (length cs - length (fst (snd st))) (Some c) cs)"

definition re_findall :: "regex \<Rightarrow> string \<Rightarrow> string list" where
  "re_findall r s = findall_from r 0 None s"



section \<open>Diagnostics and results\<close>

text \<open>
  A hook prints its findings to the standard error stream and ends the process with a
  status: 0 lets the edit stand, 2 blocks it.  The result of a run keeps the status, the
  findings with their severity (in the order they were collected) and the printed lines.
\<close>

datatype severity = WARN | BLOCK

record result =
  status :: nat
  diagnostics :: "(severity \<times> string) list"
  stderr :: "string list"

definition silent_exit :: result where
  "silent_exit = \<lparr>status = 0, diagnostics = [], stderr = []\<rparr>"

definition line_tag :: "nat \<Rightarrow> string" where
  "line_tag i = ''  Line '' @ str_nat i @ '': ''"

text \<open>A finding is attributed to a line of a text of \<open>n\<close> lines when it opens with the
  tag of one of the lines 1 to \<open>n\<close>.\<close>

definition line_attributed :: "nat \<Rightarrow> string \<Rightarrow> bool" where
  "line_attributed n m = list_ex (\<lambda>i. startswith m (line_tag i)) [1..<Suc n]"


section \<open>coding\_standards\_hook.py\<close>

definition is_cs_comment :: "string \<Rightarrow> bool" where
  "is_cs_comment stripped =
     (startswith stripped ''//'' \<or> startswith stripped ''///'' \<or>
      startswith stripped ''/*'' \<or> startswith stripped ''*'')"

definition var_pattern :: regex where
  "var_pattern = seqs [WordB, Lit ''var'', Plus CSpace,
     Cls (CUnion (CRange CHR ''a'' CHR ''z'') (CUnion (CRange CHR ''A'' CHR ''Z'') (CAnyOf ''_'')))]"

definition var_usage_line :: "nat \<Rightarrow> string \<Rightarrow> string list" where
  "var_usage_line i line =
     (let stripped = lstrip line in
      if is_cs_comment stripped then []
      else if startswith stripped dq \<or> startswith stripped sq then []
      else if matches (re_search var_pattern line)
        then [line_tag i @ ''Use explicit type instead of '' @ sq @ ''var'' @ sq @ ''. '' @
              ''Lextech standard forbids var usage.'']
        else [])"

definition check_var_usage :: "string \<Rightarrow> string list" where
  "check_var_usage content =
     concat (map (\<lambda>(i, line). var_usage_line i line) (enumerate 1 (splitlines content)))"

definition type_decl_pattern :: regex where
  "type_decl_pattern = seqs [Lit ''public'', Plus CSpace,
     Opt (Grp 1 (Seq (Lit ''sealed'') (Plus CSpace))),
     Opt (Grp 2 (Seq (Lit ''partial'') (Plus CSpace))),
     Opt (Grp 3 (Seq (Lit ''static'') (Plus CSpace))),
     Grp 4 (alts [Lit ''class'', Lit ''record'', Lit ''struct'', Lit ''interface'', Lit ''enum'']),
     Plus CSpace]"

definition method_decl_pattern :: regex where
  "method_decl_pattern = seqs [Lit ''public'', Plus CSpace,
     Opt (Grp 1 (Seq (Lit ''sealed'') (Plus CSpace))),
     Opt (Grp 2 (Seq (Lit ''static'') (Plus CSpace))),
     Opt (Grp 3 (Seq (Lit ''override'') (Plus CSpace))),
     Opt (Grp 4 (Seq (Lit ''virtual'') (Plus CSpace))),
     Opt (Grp 5 (Seq (Lit ''async'') (Plus CSpace))),
     Plus (CUnion CWord (CUnion (CAnyOf ''<>[]?,'') CSpace)),
     Plus CSpace, Plus CWord, Star CSpace, Lit ''('']"

text \<open>The backward scan for a documentation comment; the argument lists the lines above
  the declaration, nearest first (at most four of them).\<close>

fun has_doc_scan :: "string list \<Rightarrow> bool" where
  "has_doc_scan [] = False"
| "has_doc_scan (l # ls) =
     (let prev = strip l in
      if startswith prev ''/// <summary>'' \<or> startswith prev ''/// <inheritdoc'' then True
      else if startswith prev ''///'' then has_doc_scan ls
      else if prev = [] \<or> startswith prev ''['' then has_doc_scan ls
      else False)"

definition has_doc :: "string list \<Rightarrow> nat \<Rightarrow> bool" where
  "has_doc lines i = has_doc_scan (take 4 (rev (take i lines)))"

definition xml_docs_line :: "string list \<Rightarrow> nat \<Rightarrow> string \<Rightarrow> string list" where
  "xml_docs_line lines i line =
     (let stripped = strip line in
      (if matches (re_match type_decl_pattern stripped) \<and> \<not> has_doc lines i
         then [line_tag (i + 1) @ ''Public type declaration missing XML documentation. '' @
               ''Add /// <summary> above the declaration.'']
         else []) @
      (if matches (re_match method_decl_pattern stripped)
         then (if contains ''{'' stripped \<and> contains ''get;'' stripped then []
               else if \<not> has_doc lines i
                 then [line_tag (i + 1) @ ''Public method missing XML documentation. '' @
                       ''Add /// <summary> above the method.'']
                 else [])
         else []))"

definition check_xml_docs :: "string \<Rightarrow> string list" where
  "check_xml_docs content =
     (let lines = splitlines content
      in concat (map (\<lambda>(i, line). xml_docs_line lines i line) (enumerate 0 lines)))"

definition async_method_pattern :: regex where
  "async_method_pattern = seqs [
     Grp 1 (alts [Lit ''public'', Lit ''private'', Lit ''protected'', Lit ''internal'']),
     Plus CSpace, Star CDot, WordB, Lit ''async'', Plus CSpace, Plus CWord, Star CDot,
     Plus CSpace, Grp 2 (Plus CWord), Star CSpace, Lit ''('',
     Grp 3 (Star (CNoneOf '')'')), Lit '')'']"

definition cancellation_token_line :: "nat \<Rightarrow> string \<Rightarrow> string list" where
  "cancellation_token_line i line =
     (case re_match async_method_pattern (strip line) of
        None \<Rightarrow> []
      | Some m \<Rightarrow>
          (let method_name = group_str m 2; params = group_str m 3
           in if \<not> contains ''CancellationToken'' params
              then [line_tag i @ ''Async method '' @ sq @ method_name @ sq @ '' is missing a '' @
                    ''CancellationToken parameter.'']
              else []))"

definition check_cancellation_token :: "string \<Rightarrow> string list" where
  "check_cancellation_token content =
     concat (map (\<lambda>(i, line). cancellation_token_line i line) (enumerate 1 (splitlines content)))"

definition sealed_record_pattern :: regex where
  "sealed_record_pattern = seqs [Lit ''public'', Plus CSpace,
     Opt (Grp 1 (Seq (Lit ''sealed'') (Plus CSpace))),
     Opt (Grp 2 (Seq (Lit ''partial'') (Plus CSpace))),
     Grp 3 (alts [Lit ''class'', Lit ''record'', Lit ''struct'']),
     Plus CSpace, Grp 4 (Plus CWord)]"

definition sealed_record_line :: "nat \<Rightarrow> string \<Rightarrow> string list" where
  "sealed_record_line i line =
     (case re_match sealed_record_pattern (strip line) of
        None \<Rightarrow> []
      | Some m \<Rightarrow>
          (let is_sealed = (group m 1 \<noteq> None); kind = group_str m 3; type_name = group_str m 4
           in if endswith type_name ''Command'' \<or> endswith type_name ''Query''
              then (if kind \<noteq> ''record'' \<or> \<not> is_sealed
                    then (let expected = ''sealed record'';
                              actual = (if is_sealed then ''sealed '' else []) @ kind
                          in [line_tag i @ sq @ type_name @ sq @ '' should be declared as '' @
                              sq @ expected @ sq @ '' but is '' @ sq @ actual @ sq @ ''.''])
                    else [])
              else []))"

definition check_sealed_record :: "string \<Rightarrow> string list" where
  "check_sealed_record content =
     concat (map (\<lambda>(i, line). sealed_record_line i line) (enumerate 1 (splitlines content)))"

text \<open>The body of \<open>main\<close> once the payload has given a path and a text.\<close>

definition warn_only_result :: "string \<Rightarrow> string list \<Rightarrow> result" where
  "warn_only_result header all_warnings =
     \<lparr>status = 0, diagnostics = map (Pair WARN) all_warnings,
      stderr = (if all_warnings \<noteq> [] then header # all_warnings else [])\<rparr>"

definition coding_standards_run :: "string \<Rightarrow> string \<Rightarrow> result" where
  "coding_standards_run file_path content =
     (if \<not> endswith file_path ''.cs'' then silent_exit
      else if content = [] then silent_exit
      else warn_only_result
             (''[lextech-dotnet] Coding standards warnings for '' @ file_path @ '':'')
             (check_var_usage content @ check_xml_docs content @
              check_cancellation_token content @ check_sealed_record content))"


section \<open>openapi\_contract\_hook.py\<close>

definition is_endpoint_file :: "string \<Rightarrow> bool" where
  "is_endpoint_file file_path =
     (let basename = basename file_path
      in contains ''Endpoint'' basename \<and> endswith basename ''.cs'')"

definition check_with_name :: "string \<Rightarrow> string list" where
  "check_with_name content =
     (if \<not> contains ''.WithName('' content
      then [''  Endpoint missing .WithName() - required for OpenAPI operationId mapping'']
      else [])"

definition check_produces :: "string \<Rightarrow> string list" where
  "check_produces content =
     (if \<not> contains ''.Produces<'' content \<and> \<not> contains ''.Produces('' content
      then [''  Endpoint missing .Produces<T>() declarations for response types'']
      else [])"

definition check_with_tags :: "string \<Rightarrow> string list" where
  "check_with_tags content =
     (if \<not> contains ''.WithTags('' content
      then [''  Endpoint missing .WithTags() - required for OpenAPI tag grouping'']
      else [])"

definition check_summary_or_description :: "string \<Rightarrow> string list" where
  "check_summary_or_description content =
     (if \<not> contains ''.WithSummary('' content \<and> \<not> contains ''.WithDescription('' content
      then [''  Endpoint missing .WithSummary() or .WithDescription() for OpenAPI documentation'']
      else [])"

definition check_require_authorization :: "string \<Rightarrow> string list" where
  "check_require_authorization content =
     (if \<not> contains ''.RequireAuthorization('' content
      then [''  Endpoint missing .RequireAuthorization() - all endpoints must have explicit authorization'']
      else [])"

definition command_query_param_pattern :: regex where
  "command_query_param_pattern = seqs [Lit ''('', Star CSpace, Star CWord,
     Grp 1 (Alt (Lit ''Command'') (Lit ''Query'')),
     Plus CSpace, Plus CWord, Star CSpace, Cls (CAnyOf '',)'')]"

definition check_direct_command_query_parameter :: "string \<Rightarrow> string list" where
  "check_direct_command_query_parameter content =
     (if matches (re_search command_query_param_pattern content)
      then [''  Consider using a generated DTO from the OpenAPI contract instead of '' @
            ''the command/query directly'']
      else [])"

definition openapi_contract_run :: "string \<Rightarrow> string \<Rightarrow> result" where
  "openapi_contract_run file_path content =
     (if \<not> is_endpoint_file file_path then silent_exit
      else if content = [] then silent_exit
      else warn_only_result
             (''[lextech-dotnet] OpenAPI contract warnings for '' @ file_path @ '':'')
             (check_with_name content @ check_produces content @ check_with_tags content @
              check_summary_or_description content @ check_require_authorization content @
              check_direct_command_query_parameter content))"


section \<open>serilog\_enforcer\_hook.py\<close>

definition PII_PATTERNS :: "string list" where
  "PII_PATTERNS = [''password'', ''passwd'', ''token'', ''secret'', ''creditcard'',
     ''credit_card'', ''creditcardnumber'', ''ssn'', ''socialsecurity'', ''social_security'',
     ''taxfilenumber'', ''tfn'', ''bankaccount'', ''bank_account'', ''apikey'', ''api_key'',
     ''privatekey'', ''private_key'']"

text \<open>The logger-call pattern is compiled with \<open>IGNORECASE\<close>: all its letters are
  matched without regard to case.\<close>

definition log_levels :: "regex list" where
  "log_levels = [LitI ''Information'', LitI ''Warning'', LitI ''Error'', LitI ''Critical'',
     LitI ''Debug'', LitI ''Trace'', LitI ''Fatal'']"

definition LOGGER_CALL_PATTERN :: regex where
  "LOGGER_CALL_PATTERN = seqs [
     Opt (Lit ''_''), Cls (CAnyOf ''Ll''), LitI ''og'', Opt (LitI ''ger''),
     Star CSpace, Lit ''.'', Star CSpace,
     alts ([Seq (LitI ''Log'') (Opt (alts log_levels))] @ log_levels @
           [LitI ''Verbose'', LitI ''Write'']),
     Star CSpace, Lit ''('']"

definition INTERPOLATION_PATTERN :: regex where
  "INTERPOLATION_PATTERN = alts [
     seqs [Lit ''('', Star CSpace, Lit (''$'' @ dq)],
     seqs [Lit ''('', Star CSpace, Lit (''$@'' @ dq)],
     seqs [Lit '','', Star CSpace, Lit (''$'' @ dq)],
     seqs [Lit '','', Star CSpace, Lit (''$@'' @ dq)]]"

definition has_logger_usage :: "string \<Rightarrow> bool" where
  "has_logger_usage content =
     (let lower = lower content
      in contains ''log'' lower \<and>
         (contains ''_logger.'' lower \<or> contains ''logger.'' lower \<or>
          contains ''log.'' lower \<or> contains ''Log.'' content))"

definition string_interpolation_line :: "string list \<Rightarrow> nat \<Rightarrow> string \<Rightarrow> string list" where
  "string_interpolation_line lines i line =
     (let stripped = strip line in
      if is_cs_comment stripped then []
      else if \<not> matches (re_search LOGGER_CALL_PATTERN line) then []
      else if matches (re_search INTERPOLATION_PATTERN line)
        then [line_tag i @ ''String interpolation ($'' @ dq @ '') detected in log call. '' @
              ''Use Serilog message templates with {PropertyName} placeholders '' @
              ''instead. Example: _logger.LogInformation('' @ dq @ ''Processing order {OrderId}'' @
              dq @ '', orderId)'']
      else if i < length lines
        then (let next_line = lines ! i in
              if matches (re_search INTERPOLATION_PATTERN next_line)
              then [line_tag (i + 1) @ ''String interpolation ($'' @ dq @ '') detected in '' @
                    ''multi-line log call. Use Serilog message templates with '' @
                    ''{PropertyName} placeholders instead.'']
              else [])
      else [])"

definition check_string_interpolation :: "string \<Rightarrow> string list" where
  "check_string_interpolation content =
     (let lines = splitlines content
      in concat (map (\<lambda>(i, line). string_interpolation_line lines i line) (enumerate 1 lines)))"

definition is_pii :: "string \<Rightarrow> bool" where
  "is_pii name = list_ex (\<lambda>pii. contains pii (lower name)) PII_PATTERNS"

definition placeholder_pattern :: regex where
  "placeholder_pattern = seqs [Lit ''{'', Grp 1 (Plus CWord), Lit ''}'']"

definition named_arg_pattern :: regex where
  "named_arg_pattern = seqs [WordB, Grp 1 (Plus CWord), Star CSpace, Lit '':'']"

definition pii_line :: "nat \<Rightarrow> string \<Rightarrow> string list" where
  "pii_line i line =
     concat (map (\<lambda>param. if is_pii param
         then [line_tag i @ ''PII-sensitive placeholder {'' @ param @ ''} found in log call. '' @
               ''Never log sensitive data. Redact or remove this parameter.'']
         else []) (re_findall placeholder_pattern line)) @
     concat (map (\<lambda>arg. if is_pii arg
         then [line_tag i @ ''PII-sensitive named argument '' @ sq @ arg @ sq @
               '' found in log call. Never log sensitive data.'']
         else []) (re_findall named_arg_pattern line))"

text \<open>The loop of \<open>check_pii_parameters\<close>, with its two variables \<open>in_log_call\<close> and
  \<open>brace_depth\<close> passed along.\<close>

fun pii_loop :: "bool \<Rightarrow> int \<Rightarrow> (nat \<times> string) list \<Rightarrow> string list" where
  "pii_loop in_log_call brace_depth [] = []"
| "pii_loop in_log_call brace_depth ((i, line) # rest) =
     (if is_cs_comment (strip line) then pii_loop in_log_call brace_depth rest
      else if matches (re_search LOGGER_CALL_PATTERN line) \<or> in_log_call
        then (let depth0 = (if matches (re_search LOGGER_CALL_PATTERN line) then 0 else brace_depth);
                  depth = depth0 + int (count_char CHR ''('' line) - int (count_char CHR '')'' line)
              in pii_line i line @ pii_loop (\<not> depth \<le> 0) depth rest)
        else pii_loop in_log_call brace_depth rest)"

definition check_pii_parameters :: "string \<Rightarrow> string list" where
  "check_pii_parameters content = pii_loop False 0 (enumerate 1 (splitlines content))"

definition serilog_enforcer_run :: "string \<Rightarrow> string \<Rightarrow> result" where
  "serilog_enforcer_run file_path content =
     (if \<not> endswith file_path ''.cs'' then silent_exit
      else if content = [] then silent_exit
      else if \<not> has_logger_usage content then silent_exit
      else warn_only_result
             (''[lextech-dotnet] Serilog logging warnings for '' @ file_path @ '':'')
             (check_string_interpolation content @ check_pii_parameters content))"


section \<open>sql\_format\_hook.py\<close>

definition check_header_comment :: "string \<Rightarrow> string list" where
  "check_header_comment content =
     (let stripped = lstrip content in
      if \<not> startswith stripped ''--'' \<and> \<not> startswith stripped ''/*''
      then [''  SQL file is missing a header comment block. '' @
            ''Add a comment describing the query'' @ sq @ ''s purpose, parameters, and author.'']
      else [])"

text \<open>
  \<open>check_parameter_documentation\<close> collects the parameter names in a Python \<open>set\<close> and
  loops over it.  The order in which a set of strings is visited is not fixed by the
  text (string hashes are salted per process), so the model takes it as a parameter: a
  function that arranges the distinct members.  Any arrangement is allowed.
\<close>

type_synonym set_order = "string list \<Rightarrow> string list"

definition valid_order :: "set_order \<Rightarrow> bool" where
  "valid_order ord = (\<forall>xs. distinct xs \<longrightarrow> distinct (ord xs) \<and> set (ord xs) = set xs)"

definition sql_param_pattern :: regex where
  "sql_param_pattern = Seq (Lit ''@'') (Grp 1 (Plus CWord))"

definition builtin :: "string list" where
  "builtin = [''ROWCOUNT'', ''ERROR'', ''IDENTITY'', ''SCOPE_IDENTITY'', ''TRANCOUNT'']"

fun comment_section :: "string list \<Rightarrow> string list" where
  "comment_section [] = []"
| "comment_section (line # rest) =
     (let stripped = strip line in
      if startswith stripped ''--'' \<or> startswith stripped ''/*'' \<or>
         startswith stripped ''*'' \<or> startswith stripped ''*/''
        then stripped # comment_section rest
      else if stripped = [] then comment_section rest
      else [])"

definition check_parameter_documentation :: "set_order \<Rightarrow> string \<Rightarrow> string list" where
  "check_parameter_documentation ord content =
     (let params = filter (\<lambda>p. p \<notin> set builtin) (remdups (re_findall sql_param_pattern content)) in
      if params = [] then []
      else
        (let comment_text = lower (join nl (comment_section (splitlines content)));
             undocumented = map (\<lambda>param. ''@'' @ param)
                              (filter (\<lambda>param. \<not> contains (lower param) comment_text) (ord params))
         in if undocumented \<noteq> []
            then [''  Undocumented SQL parameters: '' @ join '', '' (sort undocumented) @ ''. '' @
                  ''Add parameter descriptions to the header comment.'']
            else []))"

definition is_sql_comment :: "string \<Rightarrow> bool" where
  "is_sql_comment stripped =
     (startswith stripped ''--'' \<or> startswith stripped ''/*'' \<or> startswith stripped ''*'')"

definition plus_at_pattern :: regex where
  "plus_at_pattern = seqs [Lit ''+'', Star CSpace, Lit ''@'']"

definition quote_plus_pattern :: regex where
  "quote_plus_pattern = seqs [Lit sq, Star CSpace, Lit ''+'']"

definition concat_call_pattern :: regex where
  "concat_call_pattern = seqs [WordB, LitI ''CONCAT'', Star CSpace, Lit ''('']"

definition string_concatenation_line :: "nat \<Rightarrow> string \<Rightarrow> string list" where
  "string_concatenation_line i line =
     (let stripped = strip line in
      if is_sql_comment stripped then []
      else
        (if matches (re_search plus_at_pattern stripped) \<or> matches (re_search quote_plus_pattern stripped)
           then [line_tag i @ ''String concatenation detected. '' @
                 ''Use parameterized queries with @-prefixed parameters only.'']
           else []) @
        (if matches (re_search concat_call_pattern stripped)
           then [line_tag i @ ''CONCAT() function detected in SQL. '' @
                 ''Use parameterized queries instead of building strings.'']
           else []) @
        (if contains ''string.Format'' stripped \<or> contains ''String.Format'' stripped
           then [line_tag i @ ''string.Format detected. '' @
                 ''Use parameterized queries with @-prefixed parameters.'']
           else []))"

definition check_string_concatenation :: "string \<Rightarrow> string list" where
  "check_string_concatenation content =
     concat (map (\<lambda>(i, line). string_concatenation_line i line) (enumerate 1 (splitlines content)))"

definition where_terminators :: "string list" where
  "where_terminators = [''ORDER BY'', ''GROUP BY'', ''HAVING'', ''LIMIT'', ''OFFSET'', ''UNION'',
     ''INSERT'', ''UPDATE'', ''DELETE'']"

definition string_literal_pattern :: regex where
  "string_literal_pattern = seqs [Lit ''='', Star CSpace, Lit sq,
     Cls (CNoneOf (sq @ ''@'')), Star (CNoneOf sq), Lit sq]"

definition numeric_literal_pattern :: regex where
  "numeric_literal_pattern = seqs [Lit ''='', Star CSpace, Grp 1 (Plus CDigit)]"

definition where_line :: "nat \<Rightarrow> string \<Rightarrow> string list" where
  "where_line i line =
     (let original = strip line in
      (if matches (re_search string_literal_pattern original)
         then [line_tag i @ ''Hardcoded string literal in WHERE clause. '' @
               ''Use a @-prefixed parameter instead.'']
         else []) @
      (case re_search numeric_literal_pattern original of
         None \<Rightarrow> []
       | Some numeric_match \<Rightarrow>
           (let v = int_of_digits (group_str numeric_match 1)
            in if v > 1
               then [line_tag i @ ''Hardcoded numeric literal ('' @ str_nat v @ '') in WHERE clause. '' @
                     ''Use a @-prefixed parameter instead.'']
               else [])))"

text \<open>The loop of \<open>check_non_parameterized_where\<close>, with its variable \<open>in_where\<close>.\<close>

fun where_loop :: "bool \<Rightarrow> (nat \<times> string) list \<Rightarrow> string list" where
  "where_loop in_where [] = []"
| "where_loop in_where ((i, line) # rest) =
     (let stripped = upper (strip line) in
      if is_sql_comment stripped then where_loop in_where rest
      else if contains ''WHERE'' stripped \<or> in_where
        then (if list_ex (\<lambda>kw. contains kw stripped) where_terminators
              then where_loop False rest
              else where_line i line @ where_loop True rest)
        else where_loop in_where rest)"

definition check_non_parameterized_where :: "string \<Rightarrow> string list" where
  "check_non_parameterized_where content = where_loop False (enumerate 1 (splitlines content))"

definition sql_format_run :: "set_order \<Rightarrow> string \<Rightarrow> string \<Rightarrow> result" where
  "sql_format_run ord file_path content =
     (if \<not> endswith file_path ''.sql'' then silent_exit
      else if \<not> contains ''Infrastructure'' file_path \<and> \<not> contains ''infrastructure'' file_path
        then silent_exit
      else if content = [] then silent_exit
      else
        (let warnings = check_header_comment content @ check_parameter_documentation ord content;
             blockers = check_string_concatenation content @ check_non_parameterized_where content
         in \<lparr>status = (if blockers \<noteq> [] then 2 else 0),
             diagnostics = map (Pair WARN) warnings @ map (Pair BLOCK) blockers,
             stderr =
               (if warnings \<noteq> []
                then (''[lextech-dotnet] SQL format warnings for '' @ file_path @ '':'') # warnings
                else []) @
               (if blockers \<noteq> []
                then (''[lextech-dotnet] BLOCKED: SQL injection risk in '' @ file_path @ '':'') #
                     blockers @
                     [''  Use parameterized queries with @-prefixed parameters. '' @
                      ''Never concatenate user input into SQL strings.'']
                else [])\<rparr>))"


section \<open>layer\_dependency\_hook.py\<close>

text \<open>The table is a Python \<open>dict\<close>, visited in the order its entries were written.\<close>

definition LAYER_PATTERNS :: "(string \<times> string list) list" where
  "LAYER_PATTERNS = [
     (''Domain'', [''.Domain/'', ''.Domain'' @ bs, ''/Domain/'', bs @ ''Domain'' @ bs]),
     (''Application'', [''.Application/'', ''.Application'' @ bs, ''/Application/'',
                       bs @ ''Application'' @ bs]),
     (''Infrastructure'', [''.Infrastructure/'', ''.Infrastructure'' @ bs, ''/Infrastructure/'',
                          bs @ ''Infrastructure'' @ bs]),
     (''Api'', [''.Api/'', ''.Api'' @ bs, ''.API/'', ''.API'' @ bs, ''/Api/'', bs @ ''Api'' @ bs,
               ''/API/'', bs @ ''API'' @ bs])]"

definition DOMAIN_FORBIDDEN :: "string list" where
  "DOMAIN_FORBIDDEN = [''Infrastructure'', ''Microsoft.AspNetCore'',
     ''Microsoft.EntityFrameworkCore'', ''Dapper'', ''System.Data'', ''Newtonsoft.Json'',
     ''System.Text.Json'']"

definition APPLICATION_FORBIDDEN :: "string list" where
  "APPLICATION_FORBIDDEN = [''Infrastructure'']"

definition API_WARN_PATTERNS :: "string list" where
  "API_WARN_PATTERNS = [''Repository'', ''Repositories'', ''Persistence'']"

fun detect_in :: "(string \<times> string list) list \<Rightarrow> string \<Rightarrow> string option" where
  "detect_in [] file_path = None"
| "detect_in ((layer, patterns) # rest) file_path =
     (if list_ex (\<lambda>pattern. contains pattern file_path) patterns then Some layer
      else detect_in rest file_path)"

definition detect_layer :: "string \<Rightarrow> string option" where
  "detect_layer file_path = detect_in LAYER_PATTERNS file_path"

definition using_pattern :: regex where
  "using_pattern = seqs [Lit ''using'', Plus CSpace,
     Grp 1 (Plus (CUnion CWord (CAnyOf ''.''))), Star CSpace, Lit '';'']"

definition using_alias_pattern :: regex where
  "using_alias_pattern = seqs [Lit ''using'', Plus CSpace, Plus CWord, Star CSpace, Lit ''='',
     Star CSpace, Grp 1 (Plus (CUnion CWord (CAnyOf ''.''))), Star CSpace, Lit '';'']"

definition usings_line :: "nat \<Rightarrow> string \<Rightarrow> (nat \<times> string) list" where
  "usings_line i line =
     (let stripped = strip line in
      (case re_match using_pattern stripped of
         None \<Rightarrow> [] | Some m \<Rightarrow> [(i, group_str m 1)]) @
      (case re_match using_alias_pattern stripped of
         None \<Rightarrow> [] | Some match_alias \<Rightarrow> [(i, group_str match_alias 1)]))"

definition extract_usings :: "string \<Rightarrow> (nat \<times> string) list" where
  "extract_usings content =
     concat (map (\<lambda>(i, line). usings_line i line) (enumerate 1 (splitlines content)))"

definition domain_message :: "nat \<Rightarrow> string \<Rightarrow> string" where
  "domain_message line_num namespace =
     line_tag line_num @ ''Domain layer cannot reference '' @ sq @ namespace @ sq @ ''. '' @
     ''Domain must be pure -- no infrastructure, ORM, ASP.NET, '' @
     ''or serialization dependencies.''"

definition check_domain_layer :: "(nat \<times> string) list \<Rightarrow> string \<Rightarrow> (severity \<times> string) list" where
  "check_domain_layer usings file_path =
     concat (map (\<lambda>(line_num, namespace).
       concat (map (\<lambda>forbidden.
         if contains forbidden namespace then [(BLOCK, domain_message line_num namespace)] else [])
         DOMAIN_FORBIDDEN)) usings)"

definition application_message :: "nat \<Rightarrow> string \<Rightarrow> string" where
  "application_message line_num namespace =
     line_tag line_num @ ''Application layer cannot reference '' @
     sq @ namespace @ sq @ ''. Application must not depend on '' @
     ''Infrastructure. Use interfaces defined in Application.''"

definition check_application_layer :: "(nat \<times> string) list \<Rightarrow> string \<Rightarrow> (severity \<times> string) list" where
  "check_application_layer usings file_path =
     concat (map (\<lambda>(line_num, namespace).
       concat (map (\<lambda>forbidden.
         (let segments = split_char CHR ''.'' namespace
          in if forbidden \<in> set segments
             then [(BLOCK, application_message line_num namespace)] else []))
         APPLICATION_FORBIDDEN)) usings)"

definition api_message :: "nat \<Rightarrow> string \<Rightarrow> string" where
  "api_message line_num namespace =
     line_tag line_num @ ''API layer references '' @ sq @ namespace @ sq @ ''. '' @
     ''Endpoints should dispatch via IMessageBus, not call '' @
     ''repositories directly.''"

definition check_api_layer :: "(nat \<times> string) list \<Rightarrow> string \<Rightarrow> (severity \<times> string) list" where
  "check_api_layer usings file_path =
     concat (map (\<lambda>(line_num, namespace).
       concat (map (\<lambda>pattern.
         if contains pattern namespace then [(WARN, api_message line_num namespace)] else [])
         API_WARN_PATTERNS)) usings)"

definition level_name :: "severity \<Rightarrow> string" where
  "level_name level = (case level of WARN \<Rightarrow> ''WARN'' | BLOCK \<Rightarrow> ''BLOCK'')"

definition layer_violations :: "string \<Rightarrow> (nat \<times> string) list \<Rightarrow> string \<Rightarrow> (severity \<times> string) list" where
  "layer_violations layer usings file_path =
     (if layer = ''Domain'' then check_domain_layer usings file_path
      else if layer = ''Application'' then check_application_layer usings file_path
      else if layer = ''Api'' then check_api_layer usings file_path
      else [])"

definition layer_dependency_run :: "string \<Rightarrow> string \<Rightarrow> result" where
  "layer_dependency_run file_path content =
     (if \<not> endswith file_path ''.cs'' then silent_exit
      else if content = [] then silent_exit
      else
        (case detect_layer file_path of
           None \<Rightarrow> silent_exit
         | Some layer \<Rightarrow>
             (let usings = extract_usings content in
              if usings = [] then silent_exit
              else
                (let violations = layer_violations layer usings file_path in
                 if violations = [] then silent_exit
                 else
                   (let has_blockers = list_ex (\<lambda>(level, _). level = BLOCK) violations
                    in \<lparr>status = (if has_blockers then 2 else 0),
                        diagnostics = violations,
                        stderr =
                          [if has_blockers
                           then ''[lextech-dotnet] BLOCKED: Layer dependency violation in '' @
                                file_path @ '' ('' @ layer @ '' layer):''
                           else ''[lextech-dotnet] Layer dependency warnings for '' @
                                file_path @ '' ('' @ layer @ '' layer):''] @
                          map (\<lambda>(level, message). ''  ['' @ level_name level @ ''] '' @ message)
                              violations @
                          (if has_blockers
                           then [''  Dependency direction: Domain (pure) -> Application -> '' @
                                 ''Infrastructure -> API. Inner layers must not reference outer layers.'']
                           else [])\<rparr>)))))"


section \<open>The payload and the five entry points\<close>

text \<open>
  Each \<open>main\<close> reads the standard input and hands it to \<open>json.loads\<close>.  The input of the
  model is the outcome of that call: \<open>None\<close> when it raises \<open>JSONDecodeError\<close> or
  \<open>ValueError\<close>, the decoded value otherwise.  An object is the list of its entries, one
  per key (the decoder has already kept a single value for each key); numbers are
  integers here.  The values are dynamically typed in the source, so every attribute
  access on a value of the wrong type is a branch that raises.
\<close>

datatype json =
    JNull | JBool bool | JInt int | JStr string
  | JArr "json list" | JObj "(string \<times> json) list"

datatype pyerror = AttributeError | TypeError

datatype outcome = Exited result | Raised pyerror

text \<open>\<open>d.get(key, default)\<close>: only a dict has the method.\<close>

fun py_get :: "json \<Rightarrow> string \<Rightarrow> json \<Rightarrow> pyerror + json" where
  "py_get (JObj kvs) key dflt = Inr (case map_of kvs key of None \<Rightarrow> dflt | Some v \<Rightarrow> v)"
| "py_get _ key dflt = Inl AttributeError"

text \<open>\<open>not v\<close> is false exactly for the truthy values.\<close>

fun truthy :: "json \<Rightarrow> bool" where
  "truthy JNull = False"
| "truthy (JBool b) = b"
| "truthy (JInt n) = (n \<noteq> 0)"
| "truthy (JStr s) = (s \<noteq> [])"
| "truthy (JArr xs) = (xs \<noteq> [])"
| "truthy (JObj kvs) = (kvs \<noteq> [])"

text \<open>The generator \<open>e.get("new_string", "") for e in edits\<close>, run to its end before
  \<open>join\<close> looks at the items.\<close>

fun new_strings :: "json list \<Rightarrow> pyerror + json list" where
  "new_strings [] = Inr []"
| "new_strings (e # es) =
     (case py_get e ''new_string'' (JStr []) of
        Inl err \<Rightarrow> Inl err
      | Inr v \<Rightarrow> (case new_strings es of Inl err \<Rightarrow> Inl err | Inr vs \<Rightarrow> Inr (v # vs)))"

fun str_items :: "json list \<Rightarrow> pyerror + string list" where
  "str_items [] = Inr []"
| "str_items (JStr s # vs) = (case str_items vs of Inl err \<Rightarrow> Inl err | Inr ss \<Rightarrow> Inr (s # ss))"
| "str_items (_ # vs) = Inl TypeError"

text \<open>Looping over a dict visits its keys and looping over a string its characters,
  none of which has \<open>get\<close>; the other values cannot be looped over.\<close>

fun join_edits :: "json \<Rightarrow> pyerror + string" where
  "join_edits (JArr es) =
     (case new_strings es of
        Inl err \<Rightarrow> Inl err
      | Inr vs \<Rightarrow> (case str_items vs of Inl err \<Rightarrow> Inl err | Inr ss \<Rightarrow> Inr (join nl ss)))"
| "join_edits (JObj kvs) = (if kvs = [] then Inr [] else Inl AttributeError)"
| "join_edits (JStr s) = (if s = [] then Inr [] else Inl AttributeError)"
| "join_edits _ = Inl TypeError"

text \<open>\<open>extract_file_and_content\<close> is the same function in all five files.\<close>

definition extract_file_and_content :: "json \<Rightarrow> pyerror + (json \<times> json)" where
  "extract_file_and_content payload =
     (case py_get payload ''tool_name'' (JStr []) of
        Inl err \<Rightarrow> Inl err
      | Inr tool_name \<Rightarrow>
     (case py_get payload ''tool_input'' (JObj []) of
        Inl err \<Rightarrow> Inl err
      | Inr tool_input \<Rightarrow>
     (case py_get tool_input ''file_path'' (JStr []) of
        Inl err \<Rightarrow> Inl err
      | Inr file_path \<Rightarrow>
          if tool_name = JStr ''Write''
            then (case py_get tool_input ''content'' (JStr []) of
                    Inl err \<Rightarrow> Inl err | Inr content \<Rightarrow> Inr (file_path, content))
          else if tool_name = JStr ''Edit''
            then (case py_get tool_input ''new_string'' (JStr []) of
                    Inl err \<Rightarrow> Inl err | Inr content \<Rightarrow> Inr (file_path, content))
          else if tool_name = JStr ''MultiEdit''
            then (case py_get tool_input ''edits'' (JArr []) of
                    Inl err \<Rightarrow> Inl err
                  | Inr edits \<Rightarrow>
                      (case join_edits edits of
                         Inl err \<Rightarrow> Inl err | Inr content \<Rightarrow> Inr (file_path, JStr content)))
          else Inr (file_path, JStr []))))"

text \<open>
  What the five \<open>main\<close> functions share: the decoding guard, the extraction, a test on
  the path (which needs a string: \<open>endswith\<close> raises \<open>AttributeError\<close> on anything else,
  \<open>os.path.basename\<close> raises \<open>TypeError\<close>), the test \<open>not content\<close>, and then the checks,
  whose first use of a content that is no string raises.
\<close>

definition hook_shell ::
  "pyerror \<Rightarrow> (string \<Rightarrow> bool) \<Rightarrow> (string \<Rightarrow> json \<Rightarrow> outcome) \<Rightarrow> json option \<Rightarrow> outcome" where
  "hook_shell path_error path_ok body stdin =
     (case stdin of
        None \<Rightarrow> Exited silent_exit
      | Some payload \<Rightarrow>
          (case extract_file_and_content payload of
             Inl err \<Rightarrow> Raised err
           | Inr (file_path, content) \<Rightarrow>
               (case file_path of
                  JStr fp \<Rightarrow>
                    if \<not> path_ok fp then Exited silent_exit
                    else if \<not> truthy content then Exited silent_exit
                    else body fp content
                | _ \<Rightarrow> Raised path_error)))"

definition on_text :: "pyerror \<Rightarrow> (string \<Rightarrow> result) \<Rightarrow> json \<Rightarrow> outcome" where
  "on_text err run content = (case content of JStr c \<Rightarrow> Exited (run c) | _ \<Rightarrow> Raised err)"

definition coding_standards_main :: "json option \<Rightarrow> outcome" where
  "coding_standards_main =
     hook_shell AttributeError (\<lambda>fp. endswith fp ''.cs'')
       (\<lambda>fp. on_text AttributeError (coding_standards_run fp))"

definition openapi_contract_main :: "json option \<Rightarrow> outcome" where
  "openapi_contract_main =
     hook_shell TypeError is_endpoint_file
       (\<lambda>fp. on_text TypeError (openapi_contract_run fp))"

definition serilog_enforcer_main :: "json option \<Rightarrow> outcome" where
  "serilog_enforcer_main =
     hook_shell AttributeError (\<lambda>fp. endswith fp ''.cs'')
       (\<lambda>fp. on_text AttributeError (serilog_enforcer_run fp))"

definition sql_format_main :: "set_order \<Rightarrow> json option \<Rightarrow> outcome" where
  "sql_format_main ord =
     hook_shell AttributeError
       (\<lambda>fp. endswith fp ''.sql'' \<and>
             (contains ''Infrastructure'' fp \<or> contains ''infrastructure'' fp))
       (\<lambda>fp. on_text AttributeError (sql_format_run ord fp))"

text \<open>The layer hook looks at the path once more before it touches the content, so a
  content that is no string goes unnoticed when the path names no layer.\<close>

definition layer_dependency_main :: "json option \<Rightarrow> outcome" where
  "layer_dependency_main =
     hook_shell AttributeError (\<lambda>fp. endswith fp ''.cs'')
       (\<lambda>fp content.
          (case content of
             JStr c \<Rightarrow> Exited (layer_dependency_run fp c)
           | _ \<Rightarrow> if detect_layer fp = None then Exited silent_exit else Raised AttributeError))"

text \<open>The five hooks under one name, to state what holds of each of them.\<close>

datatype hook = CodingStandards | OpenApiContract | SerilogEnforcer | SqlFormat | LayerDependency

fun run_hook :: "set_order \<Rightarrow> hook \<Rightarrow> string \<Rightarrow> string \<Rightarrow> result" where
  "run_hook ord CodingStandards = coding_standards_run"
| "run_hook ord OpenApiContract = openapi_contract_run"
| "run_hook ord SerilogEnforcer = serilog_enforcer_run"
| "run_hook ord SqlFormat = sql_format_run ord"
| "run_hook ord LayerDependency = layer_dependency_run"

fun hook_main :: "set_order \<Rightarrow> hook \<Rightarrow> json option \<Rightarrow> outcome" where
  "hook_main ord CodingStandards = coding_standards_main"
| "hook_main ord OpenApiContract = openapi_contract_main"
| "hook_main ord SerilogEnforcer = serilog_enforcer_main"
| "hook_main ord SqlFormat = sql_format_main ord"
| "hook_main ord LayerDependency = layer_dependency_main"

text \<open>The three shapes of a well-formed edit description.\<close>

definition write_payload :: "string \<Rightarrow> string \<Rightarrow> json" where
  "write_payload file_path content =
     JObj [(''tool_name'', JStr ''Write''),
           (''tool_input'', JObj [(''file_path'', JStr file_path), (''content'', JStr content)])]"

definition edit_payload :: "string \<Rightarrow> string \<Rightarrow> json" where
  "edit_payload file_path new_string =
     JObj [(''tool_name'', JStr ''Edit''),
           (''tool_input'', JObj [(''file_path'', JStr file_path), (''new_string'', JStr new_string)])]"

definition multi_edit_payload :: "string \<Rightarrow> string list \<Rightarrow> json" where
  "multi_edit_payload file_path fragments =
     JObj [(''tool_name'', JStr ''MultiEdit''),
           (''tool_input'', JObj [(''file_path'', JStr file_path),
              (''edits'', JArr (map (\<lambda>s. JObj [(''new_string'', JStr s)]) fragments))])]"


section \<open>The payload: what is recovered and what is not\<close>

lemma hook_main_unparseable: "hook_main ord h None = Exited silent_exit"
  by (cases h) (simp_all add: coding_standards_main_def openapi_contract_main_def
      serilog_enforcer_main_def sql_format_main_def layer_dependency_main_def hook_shell_def)

text \<open>
  Claim C1 says that every malformed payload, and in particular valid JSON that does not
  describe an edit, ends in the allow decision with nothing reported, and that the
  extraction never raises.  The guard of \<open>main\<close> only covers the decoding: a payload
  that decodes to anything but an object (an array, a string, a number, a truth value,
  null) is passed to \<open>extract_file_and_content\<close>, whose first \<open>payload.get\<close> raises
  \<open>AttributeError\<close> in every one of the five hooks; so does an object whose
  \<open>tool_input\<close> is null.
\<close>

theorem non_object_payload_raises:
  "hook_main ord h (Some (JArr items)) = Raised AttributeError \<and>
   hook_main ord h (Some (JStr s)) = Raised AttributeError \<and>
   hook_main ord h (Some (JInt n)) = Raised AttributeError \<and>
   hook_main ord h (Some (JBool b)) = Raised AttributeError \<and>
   hook_main ord h (Some JNull) = Raised AttributeError \<and>
   hook_main ord h (Some (JObj [(''tool_input'', JNull)])) = Raised AttributeError"
  by (cases h) (simp_all add: coding_standards_main_def openapi_contract_main_def
      serilog_enforcer_main_def sql_format_main_def layer_dependency_main_def hook_shell_def
      extract_file_and_content_def)

lemma extract_write [simp]:
  "extract_file_and_content (write_payload p c) = Inr (JStr p, JStr c)"
  by (simp add: extract_file_and_content_def write_payload_def)

lemma extract_edit [simp]:
  "extract_file_and_content (edit_payload p c) = Inr (JStr p, JStr c)"
  by (simp add: extract_file_and_content_def edit_payload_def)

lemma new_strings_fragments:
  "new_strings (map (\<lambda>s. JObj [(''new_string'', JStr s)]) fs) = Inr (map JStr fs)"
  by (induction fs) simp_all

lemma str_items_JStr: "str_items (map JStr fs) = Inr fs"
  by (induction fs) simp_all

lemma extract_multi_edit [simp]:
  "extract_file_and_content (multi_edit_payload p fs) = Inr (JStr p, JStr (join nl fs))"
  by (simp add: extract_file_and_content_def multi_edit_payload_def new_strings_fragments str_items_JStr)

lemma run_hook_empty: "run_hook ord h p [] = silent_exit"
  by (cases h) (simp_all add: coding_standards_run_def openapi_contract_run_def
      serilog_enforcer_run_def sql_format_run_def layer_dependency_run_def)

lemma hook_main_text:
  "hook_main ord h (Some payload) = Exited (run_hook ord h p c)"
  if "extract_file_and_content payload = Inr (JStr p, JStr c)"
  using that
  by (cases h) (auto simp add: coding_standards_main_def openapi_contract_main_def
      serilog_enforcer_main_def sql_format_main_def layer_dependency_main_def hook_shell_def
      on_text_def coding_standards_run_def openapi_contract_run_def
      serilog_enforcer_run_def sql_format_run_def layer_dependency_run_def)

text \<open>What is recovered: input that does not decode (shown above), an object without
  any of the expected keys, and an object that names an unknown tool all end with
  status 0 and nothing reported.\<close>

lemma empty_object_allows: "hook_main ord h (Some (JObj [])) = Exited silent_exit"
  by (cases h) (simp_all add: coding_standards_main_def openapi_contract_main_def
      serilog_enforcer_main_def sql_format_main_def layer_dependency_main_def hook_shell_def
      extract_file_and_content_def is_endpoint_file_def basename_def endswith_def)

lemma unknown_tool_allows:
  assumes "tool \<noteq> ''Write''" and "tool \<noteq> ''Edit''" and "tool \<noteq> ''MultiEdit''"
  shows "hook_main ord h (Some (JObj [(''tool_name'', JStr tool),
           (''tool_input'', JObj [(''file_path'', JStr p), (''content'', JStr c)])])) =
         Exited silent_exit"
proof -
  have "extract_file_and_content (JObj [(''tool_name'', JStr tool),
           (''tool_input'', JObj [(''file_path'', JStr p), (''content'', JStr c)])]) =
        Inr (JStr p, JStr [])"
    using assms by (simp add: extract_file_and_content_def)
  then show ?thesis
    by (simp add: hook_main_text run_hook_empty)
qed

text \<open>
  Claim C9: when the text of the edit is empty, every hook ends at once with status 0 and
  reports nothing, whatever the path; this holds for the checks run on the pair of path
  and text, and for \<open>main\<close> on a full replacement with empty content, on a single empty
  fragment, and on a list of one empty fragment.
\<close>

theorem empty_text_short_circuits:
  "run_hook ord h p [] = silent_exit \<and>
   hook_main ord h (Some (write_payload p [])) = Exited silent_exit \<and>
   hook_main ord h (Some (edit_payload p [])) = Exited silent_exit \<and>
   hook_main ord h (Some (multi_edit_payload p [[]])) = Exited silent_exit"
  by (simp add: hook_main_text [where p = p and c = "[]"] run_hook_empty)

theorem empty_text_short_circuits_witness:
  "run_hook id SqlFormat ''src/Infrastructure/q.sql'' [] = silent_exit \<and>
   hook_main id OpenApiContract (Some (write_payload ''src/Api/OrderEndpoint.cs'' [])) =
     Exited silent_exit"
  using empty_text_short_circuits [of id SqlFormat "''src/Infrastructure/q.sql''"]
    empty_text_short_circuits [of id OpenApiContract "''src/Api/OrderEndpoint.cs''"]
  by blast


section \<open>Layer detection\<close>

lemma detect_in_Some_iff:
  "detect_in tbl p = Some l \<longleftrightarrow>
     (\<exists>k < length tbl. fst (tbl ! k) = l \<and>
        (\<exists>pat \<in> set (snd (tbl ! k)). contains pat p) \<and>
        (\<forall>j < k. \<forall>pat \<in> set (snd (tbl ! j)). \<not> contains pat p))"
proof (induction tbl)
  case Nil
  show ?case by simp
next
  case (Cons e tbl)
  obtain layer pats where e: "e = (layer, pats)" by (cases e)
  show ?case
  proof (cases "\<exists>pat \<in> set pats. contains pat p")
    case True
    have "detect_in (e # tbl) p = Some layer"
      using True by (simp add: e list_ex_iff)
    moreover have "(\<exists>k < length (e # tbl). fst ((e # tbl) ! k) = l \<and>
        (\<exists>pat \<in> set (snd ((e # tbl) ! k)). contains pat p) \<and>
        (\<forall>j < k. \<forall>pat \<in> set (snd ((e # tbl) ! j)). \<not> contains pat p)) \<longleftrightarrow> layer = l"
    proof
      assume "\<exists>k < length (e # tbl). fst ((e # tbl) ! k) = l \<and>
        (\<exists>pat \<in> set (snd ((e # tbl) ! k)). contains pat p) \<and>
        (\<forall>j < k. \<forall>pat \<in> set (snd ((e # tbl) ! j)). \<not> contains pat p)"
      then obtain k where k: "fst ((e # tbl) ! k) = l"
        "\<forall>j < k. \<forall>pat \<in> set (snd ((e # tbl) ! j)). \<not> contains pat p" by blast
      have "k = 0"
      proof (rule ccontr)
        assume "k \<noteq> 0"
        then have "\<forall>pat \<in> set (snd ((e # tbl) ! 0)). \<not> contains pat p" using k(2) by blast
        then show False using True by (simp add: e)
      qed
      then show "layer = l" using k(1) by (simp add: e)
    next
      assume "layer = l"
      then show "\<exists>k < length (e # tbl). fst ((e # tbl) ! k) = l \<and>
        (\<exists>pat \<in> set (snd ((e # tbl) ! k)). contains pat p) \<and>
        (\<forall>j < k. \<forall>pat \<in> set (snd ((e # tbl) ! j)). \<not> contains pat p)"
        using True by (intro exI [of _ 0]) (simp add: e)
    qed
    ultimately show ?thesis by auto
  next
    case False
    have eq: "detect_in (e # tbl) p = detect_in tbl p"
      using False by (simp add: e list_ex_iff)
    have "(\<exists>k < length (e # tbl). fst ((e # tbl) ! k) = l \<and>
        (\<exists>pat \<in> set (snd ((e # tbl) ! k)). contains pat p) \<and>
        (\<forall>j < k. \<forall>pat \<in> set (snd ((e # tbl) ! j)). \<not> contains pat p)) \<longleftrightarrow>
      (\<exists>k < length tbl. fst (tbl ! k) = l \<and>
        (\<exists>pat \<in> set (snd (tbl ! k)). contains pat p) \<and>
        (\<forall>j < k. \<forall>pat \<in> set (snd (tbl ! j)). \<not> contains pat p))" (is "?L \<longleftrightarrow> ?R")
    proof
      assume ?L
      then obtain k where k: "k < length (e # tbl)" "fst ((e # tbl) ! k) = l"
        "\<exists>pat \<in> set (snd ((e # tbl) ! k)). contains pat p"
        "\<forall>j < k. \<forall>pat \<in> set (snd ((e # tbl) ! j)). \<not> contains pat p" by blast
      have "k \<noteq> 0"
      proof
        assume "k = 0"
        with k(3) False show False by (simp add: e)
      qed
      then obtain k' where k': "k = Suc k'" by (cases k) auto
      have "\<forall>j < k'. \<forall>pat \<in> set (snd (tbl ! j)). \<not> contains pat p"
      proof (intro allI impI)
        fix j assume "j < k'"
        then have "Suc j < k" by (simp add: k')
        with k(4) have "\<forall>pat \<in> set (snd ((e # tbl) ! Suc j)). \<not> contains pat p" by blast
        then show "\<forall>pat \<in> set (snd (tbl ! j)). \<not> contains pat p" by simp
      qed
      with k(1,2,3) show ?R by (intro exI [of _ k']) (simp add: k')
    next
      assume ?R
      then obtain k where k: "k < length tbl" "fst (tbl ! k) = l"
        "\<exists>pat \<in> set (snd (tbl ! k)). contains pat p"
        "\<forall>j < k. \<forall>pat \<in> set (snd (tbl ! j)). \<not> contains pat p" by blast
      have "\<forall>j < Suc k. \<forall>pat \<in> set (snd ((e # tbl) ! j)). \<not> contains pat p"
      proof (intro allI impI)
        fix j assume j: "j < Suc k"
        show "\<forall>pat \<in> set (snd ((e # tbl) ! j)). \<not> contains pat p"
        proof (cases j)
          case 0
          then show ?thesis using False by (simp add: e)
        next
          case (Suc j')
          then show ?thesis using j k(4) by simp
        qed
      qed
      with k(1,2,3) show ?L by (intro exI [of _ "Suc k"]) simp
    qed
    with eq Cons.IH show ?thesis by simp
  qed
qed

lemma detect_in_None_iff:
  "detect_in tbl p = None \<longleftrightarrow> (\<forall>e \<in> set tbl. \<forall>pat \<in> set (snd e). \<not> contains pat p)"
  by (induction tbl) (auto simp add: list_ex_iff split: if_splits)

text \<open>
  Claim C10: the layers are tried in the order Domain, Application, Infrastructure, Api,
  and the answer is the first layer one of whose patterns occurs in the path: the layer
  at position \<open>k\<close> of the table is returned exactly when one of its patterns occurs and
  none of the patterns of the positions before \<open>k\<close> does.  So a path that holds both
  \<open>/Domain/\<close> and \<open>/Api/\<close> is a Domain file.
\<close>

theorem detect_layer_first_in_order:
  "map fst LAYER_PATTERNS = [''Domain'', ''Application'', ''Infrastructure'', ''Api''] \<and>
   (detect_layer p = Some l \<longleftrightarrow>
      (\<exists>k < length LAYER_PATTERNS. fst (LAYER_PATTERNS ! k) = l \<and>
         (\<exists>pat \<in> set (snd (LAYER_PATTERNS ! k)). contains pat p) \<and>
         (\<forall>j < k. \<forall>pat \<in> set (snd (LAYER_PATTERNS ! j)). \<not> contains pat p))) \<and>
   (detect_layer p = None \<longleftrightarrow>
      (\<forall>e \<in> set LAYER_PATTERNS. \<forall>pat \<in> set (snd e). \<not> contains pat p)) \<and>
   (contains ''/Domain/'' p \<and> contains ''/Api/'' p \<longrightarrow> detect_layer p = Some ''Domain'')"
proof -
  have "map fst LAYER_PATTERNS = [''Domain'', ''Application'', ''Infrastructure'', ''Api'']"
    by (simp add: LAYER_PATTERNS_def)
  moreover have "contains ''/Domain/'' p \<Longrightarrow> detect_layer p = Some ''Domain''"
    by (simp add: detect_layer_def LAYER_PATTERNS_def)
  ultimately show ?thesis
    unfolding detect_layer_def by (simp only: detect_in_Some_iff detect_in_None_iff) blast
qed

theorem detect_layer_first_in_order_witness:
  "contains ''/Domain/'' ''src/Domain/Api/Order.cs'' \<and>
   contains ''/Api/'' ''src/Domain/Api/Order.cs'' \<and>
   detect_layer ''src/Domain/Api/Order.cs'' = Some ''Domain''"
proof -
  have c: "contains ''/Domain/'' ''src/Domain/Api/Order.cs'' \<and>
           contains ''/Api/'' ''src/Domain/Api/Order.cs''"
    by simp
  with detect_layer_first_in_order [of "''src/Domain/Api/Order.cs''" "''Domain''"]
  show ?thesis by blast
qed


section \<open>Severity and decision\<close>

lemma warn_only_result_status [simp]: "status (warn_only_result header ws) = 0"
  by (simp add: warn_only_result_def)

lemma warn_only_result_diagnostics [simp]:
  "diagnostics (warn_only_result header ws) = map (Pair WARN) ws"
  by (simp add: warn_only_result_def)

lemma silent_exit_simps [simp]:
  "status silent_exit = 0" "diagnostics silent_exit = []" "stderr silent_exit = []"
  by (simp_all add: silent_exit_def)

lemma coding_standards_warn_only:
  "status (coding_standards_run p t) = 0 \<and>
   (\<forall>d \<in> set (diagnostics (coding_standards_run p t)). fst d = WARN)"
  by (auto simp add: coding_standards_run_def)

lemma openapi_contract_warn_only:
  "status (openapi_contract_run p t) = 0 \<and>
   (\<forall>d \<in> set (diagnostics (openapi_contract_run p t)). fst d = WARN)"
  by (auto simp add: openapi_contract_run_def)

lemma serilog_enforcer_warn_only:
  "status (serilog_enforcer_run p t) = 0 \<and>
   (\<forall>d \<in> set (diagnostics (serilog_enforcer_run p t)). fst d = WARN)"
  by (auto simp add: serilog_enforcer_run_def)

lemma sql_format_diagnostics:
  "diagnostics (sql_format_run ord p t) = [] \<or>
   diagnostics (sql_format_run ord p t) =
     map (Pair WARN) (check_header_comment t @ check_parameter_documentation ord t) @
     map (Pair BLOCK) (check_string_concatenation t @ check_non_parameterized_where t)"
  by (simp add: sql_format_run_def Let_def)

lemma bex_block_tagged:
  "(\<exists>d \<in> set (map (Pair WARN) warnings @ map (Pair BLOCK) blockers). fst d = BLOCK) =
     (blockers \<noteq> [])"
  by (cases blockers) auto

lemma sql_format_run_cases:
  "sql_format_run ord p t = silent_exit \<or>
   (status (sql_format_run ord p t) =
      (if check_string_concatenation t @ check_non_parameterized_where t \<noteq> [] then 2 else 0) \<and>
    diagnostics (sql_format_run ord p t) =
      map (Pair WARN) (check_header_comment t @ check_parameter_documentation ord t) @
      map (Pair BLOCK) (check_string_concatenation t @ check_non_parameterized_where t))"
  by (simp add: sql_format_run_def Let_def)

lemma sql_format_status:
  "status (sql_format_run ord p t) =
     (if \<exists>d \<in> set (diagnostics (sql_format_run ord p t)). fst d = BLOCK then 2 else 0)"
proof -
  from sql_format_run_cases [of ord p t] show ?thesis
  proof
    assume "sql_format_run ord p t = silent_exit"
    then show ?thesis by simp
  next
    assume r: "status (sql_format_run ord p t) =
        (if check_string_concatenation t @ check_non_parameterized_where t \<noteq> [] then 2 else 0) \<and>
      diagnostics (sql_format_run ord p t) =
        map (Pair WARN) (check_header_comment t @ check_parameter_documentation ord t) @
        map (Pair BLOCK) (check_string_concatenation t @ check_non_parameterized_where t)"
    show ?thesis
      by (simp only: r bex_block_tagged)
  qed
qed

lemma api_layer_warn_only: "d \<in> set (check_api_layer usings p) \<Longrightarrow> fst d = WARN"
  by (auto simp add: check_api_layer_def split: if_splits)

lemma layer_dependency_diagnostics:
  "diagnostics (layer_dependency_run p t) = [] \<or>
   (\<exists>layer. detect_layer p = Some layer \<and>
      diagnostics (layer_dependency_run p t) = layer_violations layer (extract_usings t) p)"
  by (simp add: layer_dependency_run_def Let_def split: option.splits)

lemma has_blockers_iff:
  "list_ex (\<lambda>(level, _). level = BLOCK) vs = (\<exists>d \<in> set vs. fst d = BLOCK)"
  by (induction vs) auto

lemma layer_dependency_status:
  "status (layer_dependency_run p t) =
     (if \<exists>d \<in> set (diagnostics (layer_dependency_run p t)). fst d = BLOCK then 2 else 0)"
  by (simp add: layer_dependency_run_def Let_def has_blockers_iff split: option.splits)

lemma layer_block_origin:
  assumes "(BLOCK, m) \<in> set (diagnostics (layer_dependency_run p t))"
  shows "(detect_layer p = Some ''Domain'' \<and>
            (BLOCK, m) \<in> set (check_domain_layer (extract_usings t) p)) \<or>
         (detect_layer p = Some ''Application'' \<and>
            (BLOCK, m) \<in> set (check_application_layer (extract_usings t) p))"
proof -
  from assms layer_dependency_diagnostics [of p t]
  obtain layer where l: "detect_layer p = Some layer"
    and d: "(BLOCK, m) \<in> set (layer_violations layer (extract_usings t) p)"
    by auto
  show ?thesis
  proof (cases "layer = ''Domain''")
    case True
    with l d show ?thesis by (simp add: layer_violations_def)
  next
    case nd: False
    show ?thesis
    proof (cases "layer = ''Application''")
      case True
      with l d show ?thesis by (simp add: layer_violations_def)
    next
      case False
      with nd d have "(BLOCK, m) \<in> set (check_api_layer (extract_usings t) p)"
        by (simp add: layer_violations_def split: if_splits)
      then show ?thesis using api_layer_warn_only by fastforce
    qed
  qed
qed

lemma not_block_iff: "(s \<noteq> BLOCK) = (s = WARN)"
  by (cases s) simp_all

text \<open>
  Claim C2: for every hook, path and text, the status is 2 (block) exactly when one of
  the reported findings has severity BLOCK, and 0 exactly when all are WARN.  The coding
  standards, contract and logging hooks always end with status 0.  In the SQL hook a
  BLOCK finding is always a product of the string-concatenation check or of the WHERE
  check, and a WARN finding one of the header or parameter-documentation check.  In the
  layer hook a BLOCK finding only arises for a Domain or an Application file, from the
  check of that layer.
\<close>

theorem block_iff_block_diagnostic:
  "(status (run_hook ord h p t) = 2 \<longleftrightarrow>
      (\<exists>d \<in> set (diagnostics (run_hook ord h p t)). fst d = BLOCK)) \<and>
   (status (run_hook ord h p t) = 0 \<longleftrightarrow>
      (\<forall>d \<in> set (diagnostics (run_hook ord h p t)). fst d = WARN)) \<and>
   (h = CodingStandards \<or> h = OpenApiContract \<or> h = SerilogEnforcer \<longrightarrow>
      status (run_hook ord h p t) = 0) \<and>
   (h = SqlFormat \<longrightarrow>
      (\<forall>m. (BLOCK, m) \<in> set (diagnostics (run_hook ord h p t)) \<longrightarrow>
         m \<in> set (check_string_concatenation t) \<union> set (check_non_parameterized_where t)) \<and>
      (\<forall>m. (WARN, m) \<in> set (diagnostics (run_hook ord h p t)) \<longrightarrow>
         m \<in> set (check_header_comment t) \<union> set (check_parameter_documentation ord t))) \<and>
   (h = LayerDependency \<longrightarrow>
      (\<forall>m. (BLOCK, m) \<in> set (diagnostics (run_hook ord h p t)) \<longrightarrow>
         (detect_layer p = Some ''Domain'' \<and>
            (BLOCK, m) \<in> set (check_domain_layer (extract_usings t) p)) \<or>
         (detect_layer p = Some ''Application'' \<and>
            (BLOCK, m) \<in> set (check_application_layer (extract_usings t) p))))"
proof (cases h)
  case CodingStandards
  then show ?thesis using coding_standards_warn_only [of p t] by auto
next
  case OpenApiContract
  then show ?thesis using openapi_contract_warn_only [of p t] by auto
next
  case SerilogEnforcer
  then show ?thesis using serilog_enforcer_warn_only [of p t] by auto
next
  case SqlFormat
  have 1: "status (sql_format_run ord p t) = 2 \<longleftrightarrow>
      (\<exists>d \<in> set (diagnostics (sql_format_run ord p t)). fst d = BLOCK)"
    by (simp add: sql_format_status)
  have 2: "status (sql_format_run ord p t) = 0 \<longleftrightarrow>
      (\<forall>d \<in> set (diagnostics (sql_format_run ord p t)). fst d = WARN)"
    by (simp add: sql_format_status) (metis not_block_iff)
  have 3: "(BLOCK, m) \<in> set (diagnostics (sql_format_run ord p t)) \<Longrightarrow>
         m \<in> set (check_string_concatenation t) \<union> set (check_non_parameterized_where t)" for m
    using sql_format_diagnostics [of ord p t] by auto
  have 4: "(WARN, m) \<in> set (diagnostics (sql_format_run ord p t)) \<Longrightarrow>
         m \<in> set (check_header_comment t) \<union> set (check_parameter_documentation ord t)" for m
    using sql_format_diagnostics [of ord p t] by auto
  from SqlFormat 1 2 3 4 show ?thesis by simp
next
  case LayerDependency
  have 1: "status (layer_dependency_run p t) = 2 \<longleftrightarrow>
      (\<exists>d \<in> set (diagnostics (layer_dependency_run p t)). fst d = BLOCK)"
    by (simp add: layer_dependency_status)
  have 2: "status (layer_dependency_run p t) = 0 \<longleftrightarrow>
      (\<forall>d \<in> set (diagnostics (layer_dependency_run p t)). fst d = WARN)"
    by (simp add: layer_dependency_status) (metis not_block_iff)
  from LayerDependency 1 2 layer_block_origin [of _ p t] show ?thesis by simp
qed

lemma sql_block_example:
  "sql_format_run id ''src/Infrastructure/q.sql'' (''-- q'' @ nl @ ''SELECT * FROM t WHERE status = 2'') =
   \<lparr>status = 2, diagnostics = [(BLOCK, line_tag 2 @ ''Hardcoded numeric literal (2) in WHERE clause. Use a @-prefixed parameter instead.'')],
    stderr = [''[lextech-dotnet] BLOCKED: SQL injection risk in src/Infrastructure/q.sql:'',
     line_tag 2 @ ''Hardcoded numeric literal (2) in WHERE clause. Use a @-prefixed parameter instead.'',
     ''  Use parameterized queries with @-prefixed parameters. Never concatenate user input into SQL strings.'']\<rparr>"
  by code_simp

theorem block_iff_block_diagnostic_witness:
  "status (run_hook id SqlFormat ''src/Infrastructure/q.sql''
             (''-- q'' @ nl @ ''SELECT * FROM t WHERE status = 2'')) = 2 \<and>
   (BLOCK, line_tag 2 @ ''Hardcoded numeric literal (2) in WHERE clause. Use a @-prefixed parameter instead.'')
     \<in> set (diagnostics (run_hook id SqlFormat ''src/Infrastructure/q.sql''
             (''-- q'' @ nl @ ''SELECT * FROM t WHERE status = 2''))) \<and>
   line_tag 2 @ ''Hardcoded numeric literal (2) in WHERE clause. Use a @-prefixed parameter instead.''
     \<in> set (check_string_concatenation (''-- q'' @ nl @ ''SELECT * FROM t WHERE status = 2'')) \<union>
        set (check_non_parameterized_where (''-- q'' @ nl @ ''SELECT * FROM t WHERE status = 2''))"
proof -
  have d: "(BLOCK, line_tag 2 @ ''Hardcoded numeric literal (2) in WHERE clause. Use a @-prefixed parameter instead.'')
     \<in> set (diagnostics (run_hook id SqlFormat ''src/Infrastructure/q.sql''
             (''-- q'' @ nl @ ''SELECT * FROM t WHERE status = 2'')))"
    using sql_block_example by simp
  with block_iff_block_diagnostic [of id SqlFormat "''src/Infrastructure/q.sql''"
      "''-- q'' @ nl @ ''SELECT * FROM t WHERE status = 2''"]
  show ?thesis by fastforce
qed


section \<open>The Application layer rule\<close>

lemma join_Cons_head: "join sep ((x # a) # rest) = x # join sep (a # rest)"
  by (cases rest) simp_all

lemma join_split_char: "join [c] (split_char c s) = s"
proof (induction s)
  case Nil
  show ?case by simp
next
  case (Cons x s)
  show ?case
  proof (cases "x = c")
    case True
    then show ?thesis using Cons by (cases "split_char c s") simp_all
  next
    case False
    then show ?thesis using Cons
      by (cases "split_char c s") (simp_all add: join_Cons_head)
  qed
qed

lemma split_char_segments: "w \<in> set (split_char c s) \<Longrightarrow> c \<notin> set w"
  by (induction s arbitrary: w) (auto split: if_splits list.splits)

lemma check_application_layer_filter:
  "check_application_layer usings fp =
     map (\<lambda>(line_num, namespace). (BLOCK, application_message line_num namespace))
       (filter (\<lambda>(line_num, namespace). ''Infrastructure'' \<in> set (split_char CHR ''.'' namespace)) usings)"
  unfolding check_application_layer_def APPLICATION_FORBIDDEN_def
  by (induction usings) (auto simp add: Let_def)

lemma application_run_diagnostics:
  assumes "endswith p ''.cs''" "detect_layer p = Some ''Application''"
  shows "diagnostics (layer_dependency_run p t) = check_application_layer (extract_usings t) p"
proof -
  have e: "extract_usings [] = []" by (simp add: extract_usings_def splitlines_def)
  have n: "check_application_layer [] p = []" by (simp add: check_application_layer_def)
  show ?thesis using assms
    by (auto simp add: layer_dependency_run_def Let_def layer_violations_def e n)
qed

lemma usings_helpers_import: "extract_usings ''using Foo.InfrastructureHelpers;'' = [(1, ''Foo.InfrastructureHelpers'')]"
  by code_simp
lemma usings_data_import: "extract_usings ''using Foo.Infrastructure.Data;'' = [(1, ''Foo.Infrastructure.Data'')]"
  by code_simp
lemma segments_helpers_import: "split_char CHR ''.'' ''Foo.InfrastructureHelpers'' = [''Foo'', ''InfrastructureHelpers'']"
  by code_simp
lemma segments_data_import: "split_char CHR ''.'' ''Foo.Infrastructure.Data'' = [''Foo'', ''Infrastructure'', ''Data'']"
  by code_simp


text \<open>
  Claim C4: for a file of the Application layer, an import is reported (with severity
  BLOCK) exactly when one of the dot-delimited segments of its namespace is the word
  \<open>Infrastructure\<close>.  The segments are those of \<open>split\<close>: joined by dots they give
  the namespace back, and none holds a dot.  For every path that ends in \<open>.cs\<close> and is
  detected as Application, the findings of the hook are those of the check, the status
  is 2 exactly when some import has such a segment, importing
  \<open>Foo.InfrastructureHelpers\<close> reports nothing and importing
  \<open>Foo.Infrastructure.Data\<close> reports one BLOCK finding and blocks.
\<close>

theorem application_layer_segment_exact:
  "check_application_layer usings fp =
     map (\<lambda>(line_num, namespace). (BLOCK, application_message line_num namespace))
       (filter (\<lambda>(line_num, namespace).
          ''Infrastructure'' \<in> set (split_char CHR ''.'' namespace)) usings) \<and>
   join ''.'' (split_char CHR ''.'' namespace) = namespace \<and>
   (\<forall>segment \<in> set (split_char CHR ''.'' namespace). CHR ''.'' \<notin> set segment) \<and>
   (endswith p ''.cs'' \<and> detect_layer p = Some ''Application'' \<longrightarrow>
      diagnostics (layer_dependency_run p t) = check_application_layer (extract_usings t) p \<and>
      (status (layer_dependency_run p t) = 2 \<longleftrightarrow>
         (\<exists>(line_num, namespace) \<in> set (extract_usings t).
            ''Infrastructure'' \<in> set (split_char CHR ''.'' namespace))) \<and>
      layer_dependency_run p ''using Foo.InfrastructureHelpers;'' = silent_exit \<and>
      status (layer_dependency_run p ''using Foo.Infrastructure.Data;'') = 2 \<and>
      diagnostics (layer_dependency_run p ''using Foo.Infrastructure.Data;'') =
        [(BLOCK, application_message 1 ''Foo.Infrastructure.Data'')])"
proof -
  have a: "join ''.'' (split_char CHR ''.'' namespace) = namespace"
    by (rule join_split_char)
  have b: "\<forall>segment \<in> set (split_char CHR ''.'' namespace). CHR ''.'' \<notin> set segment"
    using split_char_segments by blast
  have c: "diagnostics (layer_dependency_run p t) = check_application_layer (extract_usings t) p \<and>
      (status (layer_dependency_run p t) = 2 \<longleftrightarrow>
         (\<exists>(line_num, namespace) \<in> set (extract_usings t).
            ''Infrastructure'' \<in> set (split_char CHR ''.'' namespace))) \<and>
      layer_dependency_run p ''using Foo.InfrastructureHelpers;'' = silent_exit \<and>
      status (layer_dependency_run p ''using Foo.Infrastructure.Data;'') = 2 \<and>
      diagnostics (layer_dependency_run p ''using Foo.Infrastructure.Data;'') =
        [(BLOCK, application_message 1 ''Foo.Infrastructure.Data'')]"
    if h: "endswith p ''.cs''" "detect_layer p = Some ''Application''"
  proof -
    have d: "diagnostics (layer_dependency_run p x) = check_application_layer (extract_usings x) p" for x
      using h by (rule application_run_diagnostics)
    have st: "status (layer_dependency_run p x) = 2 \<longleftrightarrow>
         (\<exists>(line_num, namespace) \<in> set (extract_usings x).
            ''Infrastructure'' \<in> set (split_char CHR ''.'' namespace))" for x
      by (simp add: layer_dependency_status d check_application_layer_filter) auto
    have e1: "layer_dependency_run p ''using Foo.InfrastructureHelpers;'' = silent_exit"
      using h
      by (simp add: layer_dependency_run_def usings_helpers_import layer_violations_def check_application_layer_filter segments_helpers_import)
    have e2: "diagnostics (layer_dependency_run p ''using Foo.Infrastructure.Data;'') =
        [(BLOCK, application_message 1 ''Foo.Infrastructure.Data'')]"
      by (simp add: d usings_data_import check_application_layer_filter segments_data_import)
    have e3: "status (layer_dependency_run p ''using Foo.Infrastructure.Data;'') = 2"
      by (simp add: st usings_data_import segments_data_import)
    from d st e1 e2 e3 show ?thesis by blast
  qed
  from check_application_layer_filter [of usings fp] a b c show ?thesis by blast
qed

lemma application_path_example:
  "endswith ''src/Orders.Application/Handlers/CreateOrder.cs'' ''.cs'' \<and>
   detect_layer ''src/Orders.Application/Handlers/CreateOrder.cs'' = Some ''Application''"
  by code_simp

theorem application_layer_segment_exact_witness:
  "endswith ''src/Orders.Application/Handlers/CreateOrder.cs'' ''.cs'' \<and>
   detect_layer ''src/Orders.Application/Handlers/CreateOrder.cs'' = Some ''Application'' \<and>
   layer_dependency_run ''src/Orders.Application/Handlers/CreateOrder.cs''
     ''using Foo.InfrastructureHelpers;'' = silent_exit \<and>
   status (layer_dependency_run ''src/Orders.Application/Handlers/CreateOrder.cs''
     ''using Foo.Infrastructure.Data;'') = 2"
  using application_path_example
    application_layer_segment_exact [of "[]" "[]" "[]" "''src/Orders.Application/Handlers/CreateOrder.cs''" "[]"]
  by blast


section \<open>Numeric literals of any size in a WHERE clause\<close>

lemma code_digit_char: "d < 10 \<Longrightarrow> code (digit_char d) = 48 + d"
  by (simp add: code_def digit_char_def)

lemma is_digit_digit_char: "d < 10 \<Longrightarrow> is_digit (digit_char d)"
  by (simp add: is_digit_def code_digit_char)

lemma str_nat_digits: "c \<in> set (str_nat n) \<Longrightarrow> is_digit c"
proof (induction n arbitrary: c rule: str_nat.induct)
  case (1 n)
  show ?case
  proof (cases "n < 10")
    case True
    with "1.prems" show ?thesis
      by (simp add: str_nat.simps [of n] is_digit_digit_char)
  next
    case False
    with "1.prems" have "c \<in> set (str_nat (n div 10)) \<or> c = digit_char (n mod 10)"
      by (auto simp add: str_nat.simps [of n])
    then show ?thesis
      using "1.IH" [OF False] by (auto simp add: is_digit_digit_char)
  qed
qed

lemma str_nat_not_empty: "str_nat n \<noteq> []"
  by (simp add: str_nat.simps [of n])

lemma int_of_digits_snoc:
  "int_of_digits (s @ [c]) = 10 * int_of_digits s + (code c - 48)"
  by (simp add: int_of_digits_def)

lemma int_of_digits_str_nat: "int_of_digits (str_nat n) = n"
proof (induction n rule: str_nat.induct)
  case (1 n)
  show ?case
  proof (cases "n < 10")
    case True
    then show ?thesis
      by (simp add: str_nat.simps [of n] int_of_digits_def code_digit_char)
  next
    case False
    then show ?thesis
      using "1.IH" [OF False]
      by (simp add: str_nat.simps [of n] int_of_digits_snoc code_digit_char)
  qed
qed

lemma digit_facts:
  assumes "is_digit c"
  shows "\<not> is_space c" and "\<not> is_linebreak c" and "c \<noteq> CHR ''=''" and "c \<noteq> CHR 0x27"
    and "upper_char c = [c]" and "\<not> is_space c"
  using assms
  by (auto simp add: is_digit_def is_space_def is_linebreak_def upper_char_def code_def Let_def)


lemma splitlines_aux_no_break:
  "(\<forall>c \<in> set s. \<not> is_linebreak c) \<Longrightarrow>
     splitlines_aux cur s = (if cur = [] \<and> s = [] then [] else [rev cur @ s])"
  by (induction cur s rule: splitlines_aux.induct) (auto simp add: is_linebreak_def code_def)

lemma splitlines_single:
  "(\<forall>c \<in> set s. \<not> is_linebreak c) \<Longrightarrow> s \<noteq> [] \<Longrightarrow> splitlines s = [s]"
  by (simp add: splitlines_def splitlines_aux_no_break)

lemma dropWhile_rev_last:
  assumes "s \<noteq> []" and "\<not> P (last s)"
  shows "dropWhile P (rev s) = rev s"
proof -
  from assms(1) obtain x xs where r: "rev s = x # xs"
    by (cases "rev s") simp_all
  then have "x = last s"
    using assms(1) by (metis hd_rev list.sel(1))
  with assms(2) show ?thesis unfolding r by simp
qed

lemma strip_unchanged:
  assumes "s \<noteq> []" and "\<not> is_space (hd s)" and "\<not> is_space (last s)"
  shows "strip s = s"
proof -
  from assms(1,2) have "dropWhile is_space s = s"
    by (cases s) simp_all
  then show ?thesis
    using assms(1,3) by (simp add: strip_def dropWhile_rev_last)
qed

lemma upper_Nil: "upper [] = []"
  by (simp add: upper_def)

lemma upper_Cons: "upper (c # cs) = upper_char c @ upper cs"
  by (simp add: upper_def)

lemma upper_append: "upper (a @ b) = upper a @ upper b"
  by (simp add: upper_def)

lemma upper_digits: "(\<forall>c \<in> set ds. is_digit c) \<Longrightarrow> upper ds = ds"
  by (induction ds) (simp_all add: upper_Nil upper_Cons digit_facts)

lemma no_word_in_digits:
  "(\<forall>c \<in> set ds. is_digit c) \<Longrightarrow> \<not> is_digit k \<Longrightarrow> \<not> contains (k # kw) ds"
  by (induction ds) auto

lemma no_equals_in_digits:
  "(\<forall>c \<in> set ds. is_digit c) \<Longrightarrow> search_from (Seq (Lit ''='') r) p ds = None"
  by (induction ds arbitrary: p) (auto simp add: first_state_def is_digit_def code_def)

lemma star_digits_all:
  "(\<forall>c \<in> set ds. is_digit c) \<Longrightarrow> \<exists>q rest. star_states CDigit (p, ds, g) = (q, [], g) # rest"
proof (induction ds arbitrary: p)
  case Nil
  show ?case by simp
next
  case (Cons d ds)
  then obtain q rest where "star_states CDigit (Some d, ds, g) = (q, [], g) # rest"
    by fastforce
  with Cons.prems show ?case by simp
qed

lemma star_space_digits:
  "ds \<noteq> [] \<Longrightarrow> is_digit (hd ds) \<Longrightarrow> star_states CSpace (p, ds, g) = [(p, ds, g)]"
  by (cases ds) (simp_all add: digit_facts)

lemma quote_digits:
  "ds \<noteq> [] \<Longrightarrow> is_digit (hd ds) \<Longrightarrow> lit_states (=) [CHR 0x27] (p, ds, g) = []"
  by (cases ds) (auto simp add: is_digit_def code_def)

lemma plus_digits:
  assumes "ds \<noteq> []" and "\<forall>c \<in> set ds. is_digit c"
  shows "\<exists>q rest. plus_states CDigit (p, ds, g) = (q, [], g) # rest"
proof -
  from assms(1) obtain d ds' where ds: "ds = d # ds'" by (cases ds) simp_all
  with assms(2) have "is_digit d" and "\<forall>c \<in> set ds'. is_digit c" by simp_all
  then show ?thesis
    using star_digits_all [of ds' "Some d" g] by (simp add: ds)
qed


lemma where_line_numeric:
  assumes dg: "\<forall>c \<in> set D. is_digit c" and ne: "D \<noteq> []"
  shows "where_line i (''WHERE status = '' @ D) =
     (if int_of_digits D > 1
      then [line_tag i @ ''Hardcoded numeric literal ('' @ str_nat (int_of_digits D) @
            '') in WHERE clause. Use a @-prefixed parameter instead.'']
      else [])"
proof -
  define L where "L = ''WHERE status = '' @ D"
  from dg ne have hd: "is_digit (hd D)" and la: "is_digit (last D)"
    by simp_all
  have st: "strip L = L"
  proof (rule strip_unchanged)
    show "L \<noteq> []" by (simp add: L_def)
    show "\<not> is_space (hd L)"
      by (simp add: L_def is_space_def code_def)
    have "last L = last D"
      using ne by (simp add: L_def)
    then show "\<not> is_space (last L)"
      using digit_facts(1) [OF la] by simp
  qed
  have sp: "star_states CSpace (p, D, g) = [(p, D, g)]" for p g
    using ne hd by (rule star_space_digits)
  have qu: "lit_states (=) [CHR 0x27] (p, D, g) = []" for p g
    using ne hd by (rule quote_digits)
  have eq: "search_from (Seq (Lit ''='') r) p D = None" for r p
    using dg by (rule no_equals_in_digits)
  have s1: "re_search string_literal_pattern L = None"
    by (simp add: L_def re_search_def string_literal_pattern_def sp qu eq is_space_def code_def)
  from plus_digits [OF ne dg] obtain q rest
    where pl: "plus_states CDigit (Some CHR '' '', D, []) = (q, [], []) # rest"
    by blast
  have s2: "re_search numeric_literal_pattern L = Some (q, [], [(1, D)])"
    by (simp add: L_def re_search_def numeric_literal_pattern_def sp pl is_space_def code_def)
  have "where_line i L =
     (if int_of_digits D > 1
      then [line_tag i @ ''Hardcoded numeric literal ('' @ str_nat (int_of_digits D) @
            '') in WHERE clause. Use a @-prefixed parameter instead.'']
      else [])"
    by (simp add: where_line_def st s1 s2 matches_def group_str_def group_def)
  then show ?thesis by (simp only: L_def)
qed

lemma where_loop_numeric:
  assumes dg: "\<forall>c \<in> set D. is_digit c" and ne: "D \<noteq> []"
  shows "where_loop False [(i, ''WHERE status = '' @ D)] = where_line i (''WHERE status = '' @ D)"
proof -
  define L where "L = ''WHERE status = '' @ D"
  define U where "U = ''WHERE STATUS = '' @ D"
  from dg ne have la: "is_digit (last D)"
    by simp
  have st: "strip L = L"
  proof (rule strip_unchanged)
    show "L \<noteq> []" by (simp add: L_def)
    show "\<not> is_space (hd L)"
      by (simp add: L_def is_space_def code_def)
    have "last L = last D"
      using ne by (simp add: L_def)
    then show "\<not> is_space (last L)"
      using digit_facts(1) [OF la] by simp
  qed
  have "upper ''WHERE status = '' = ''WHERE STATUS = ''"
    by code_simp
  then have up: "upper L = U"
    using dg by (simp only: L_def U_def upper_append upper_digits)
  have nw: "\<not> contains (k # kw) D" if "\<not> is_digit k" for k kw
    using dg that by (rule no_word_in_digits)
  have c1: "\<not> is_sql_comment U"
    by (simp add: U_def is_sql_comment_def startswith_def)
  have c2: "contains ''WHERE'' U"
    by (simp add: U_def)
  have c3: "\<not> list_ex (\<lambda>kw. contains kw U) where_terminators"
    by (simp add: U_def where_terminators_def nw is_digit_def code_def)
  have "where_loop False [(i, L)] = where_line i L"
    by (simp add: st up c1 c2 c3)
  then show ?thesis by (simp only: L_def)
qed


lemma check_where_numeric:
  "check_non_parameterized_where (''WHERE status = '' @ str_nat n) =
     (if 1 < n
      then [line_tag 1 @ ''Hardcoded numeric literal ('' @ str_nat n @
            '') in WHERE clause. Use a @-prefixed parameter instead.'']
      else [])"
proof -
  define D where "D = str_nat n"
  have dg: "\<forall>c \<in> set D. is_digit c"
    using str_nat_digits by (simp add: D_def)
  have ne: "D \<noteq> []"
    by (simp add: D_def str_nat_not_empty)
  have "\<forall>c \<in> set ''WHERE status = ''. \<not> is_linebreak c"
    by (simp add: is_linebreak_def code_def)
  then have "\<forall>c \<in> set (''WHERE status = '' @ D). \<not> is_linebreak c"
    using dg digit_facts(2) by (simp only: set_append) blast
  then have sl: "splitlines (''WHERE status = '' @ D) = [''WHERE status = '' @ D]"
    by (rule splitlines_single) simp
  have "check_non_parameterized_where (''WHERE status = '' @ D) =
      where_loop False [(1, ''WHERE status = '' @ D)]"
    unfolding check_non_parameterized_where_def sl by (simp add: enumerate_simps)
  also have "\<dots> = where_line 1 (''WHERE status = '' @ D)"
    using dg ne by (rule where_loop_numeric)
  also have "\<dots> = (if int_of_digits D > 1
      then [line_tag 1 @ ''Hardcoded numeric literal ('' @ str_nat (int_of_digits D) @
            '') in WHERE clause. Use a @-prefixed parameter instead.'']
      else [])"
    using dg ne by (rule where_line_numeric)
  finally show ?thesis
    by (simp only: D_def int_of_digits_str_nat)
qed


section \<open>Worked inputs: the WHERE check and the sealed-record check\<close>

lemma where_status_0: "check_non_parameterized_where ''WHERE status = 0'' = []"
  by code_simp

lemma where_status_2:
  "check_non_parameterized_where ''WHERE status = 2'' =
     [''  Line 1: Hardcoded numeric literal (2) in WHERE clause. Use a @-prefixed parameter instead.'']"
  by code_simp

lemma where_name_bob:
  "check_non_parameterized_where (''WHERE name = '' @ sq @ ''bob'' @ sq) =
     [''  Line 1: Hardcoded string literal in WHERE clause. Use a @-prefixed parameter instead.'']"
  by code_simp

lemma sql_file_status_0:
  "sql_format_run ord ''src/Infrastructure/Sql/orders.sql''
     (''-- orders by status'' @ nl @ ''SELECT id FROM orders'' @ nl @ ''WHERE status = 0'') = silent_exit"
  by code_simp

lemma sql_file_status_2:
  "sql_format_run ord ''src/Infrastructure/Sql/orders.sql''
     (''-- orders by status'' @ nl @ ''SELECT id FROM orders'' @ nl @ ''WHERE status = 2'') =
   \<lparr>status = 2,
    diagnostics = [(BLOCK, ''  Line 3: Hardcoded numeric literal (2) in WHERE clause. Use a @-prefixed parameter instead.'')],
    stderr = [''[lextech-dotnet] BLOCKED: SQL injection risk in src/Infrastructure/Sql/orders.sql:'',
      ''  Line 3: Hardcoded numeric literal (2) in WHERE clause. Use a @-prefixed parameter instead.'',
      ''  Use parameterized queries with @-prefixed parameters. Never concatenate user input into SQL strings.'']\<rparr>"
  by code_simp

lemma sql_file_name_bob:
  "sql_format_run ord ''src/Infrastructure/Sql/orders.sql''
     (''-- orders by name'' @ nl @ ''SELECT id FROM orders'' @ nl @ ''WHERE name = '' @ sq @ ''bob'' @ sq) =
   \<lparr>status = 2,
    diagnostics = [(BLOCK, ''  Line 3: Hardcoded string literal in WHERE clause. Use a @-prefixed parameter instead.'')],
    stderr = [''[lextech-dotnet] BLOCKED: SQL injection risk in src/Infrastructure/Sql/orders.sql:'',
      ''  Line 3: Hardcoded string literal in WHERE clause. Use a @-prefixed parameter instead.'',
      ''  Use parameterized queries with @-prefixed parameters. Never concatenate user input into SQL strings.'']\<rparr>"
  by code_simp

lemma sealed_record_FooCommand:
  "check_sealed_record ''public class FooCommand'' =
     [''  Line 1: '' @ sq @ ''FooCommand'' @ sq @ '' should be declared as '' @ sq @ ''sealed record'' @ sq @
      '' but is '' @ sq @ ''class'' @ sq @ ''.'']"
  by code_simp

lemma coding_FooCommand_checks:
  "check_var_usage ''public class FooCommand'' = [] \<and>
   check_xml_docs ''public class FooCommand'' =
     [''  Line 1: Public type declaration missing XML documentation. Add /// <summary> above the declaration.''] \<and>
   check_cancellation_token ''public class FooCommand'' = []"
  by code_simp

lemma coding_FooCommand_documented_checks:
  "check_var_usage (''/// <summary>Places an order.</summary>'' @ nl @ ''public class FooCommand'') = [] \<and>
   check_xml_docs (''/// <summary>Places an order.</summary>'' @ nl @ ''public class FooCommand'') = [] \<and>
   check_cancellation_token (''/// <summary>Places an order.</summary>'' @ nl @ ''public class FooCommand'') = [] \<and>
   check_sealed_record (''/// <summary>Places an order.</summary>'' @ nl @ ''public class FooCommand'') =
     [''  Line 2: '' @ sq @ ''FooCommand'' @ sq @ '' should be declared as '' @ sq @ ''sealed record'' @ sq @
      '' but is '' @ sq @ ''class'' @ sq @ ''.'']"
  by code_simp








section \<open>Endpoint files\<close>

lemma contains_prefix: "prefix sub s \<Longrightarrow> contains sub s"
  by (cases s) simp_all

lemma contains_append: "contains sub (pre @ sub @ post)"
  by (induction pre) (simp_all add: contains_prefix)

lemma contains_decompose: "contains sub s \<Longrightarrow> \<exists>pre post. s = pre @ sub @ post"
proof (induction s)
  case Nil
  then show ?case by simp
next
  case (Cons c cs)
  show ?case
  proof (cases "prefix sub (c # cs)")
    case True
    then obtain post where "c # cs = sub @ post" by (auto simp add: prefix_def)
    then have "c # cs = [] @ sub @ post" by simp
    then show ?thesis by blast
  next
    case False
    with Cons.prems have "contains sub cs" by simp
    with Cons.IH obtain pre post where "cs = pre @ sub @ post" by blast
    then have "c # cs = (c # pre) @ sub @ post" by simp
    then show ?thesis by blast
  qed
qed

lemma contains_iff: "contains sub s \<longleftrightarrow> (\<exists>pre post. s = pre @ sub @ post)"
  using contains_append contains_decompose by blast

lemma search_from_hit:
  "(\<And>q. rmatch r (q, s, []) \<noteq> []) \<Longrightarrow> search_from r p (pre @ s) \<noteq> None"
proof (induction pre arbitrary: p)
  case Nil
  then show ?case
    by (cases s; cases "rmatch r (p, s, [])") (auto simp add: first_state_def)
next
  case (Cons c pre)
  then show ?case
    by (cases "rmatch r (p, c # pre @ s, [])") simp_all
qed

lemma command_param_matches:
  "rmatch command_query_param_pattern (q, ''(OrderCommand command)'' @ post, []) \<noteq> []"
  by (cases post)
     (simp_all add: command_query_param_pattern_def is_space_def is_word_def code_def)


lemma direct_parameter_found:
  assumes "contains ''(OrderCommand command)'' t"
  shows "check_direct_command_query_parameter t =
     [''  Consider using a generated DTO from the OpenAPI contract instead of the command/query directly'']"
proof -
  from assms obtain pre post where t: "t = pre @ ''(OrderCommand command)'' @ post"
    using contains_decompose by blast
  have "search_from command_query_param_pattern None (pre @ ''(OrderCommand command)'' @ post) \<noteq> None"
    by (rule search_from_hit) (rule command_param_matches)
  then show ?thesis
    by (simp add: check_direct_command_query_parameter_def matches_def re_search_def t)
qed

text \<open>
  Claim C6: for a file whose base name contains \<open>Endpoint\<close> and ends in \<open>.cs\<close>, and
  whose text holds none of the builder-call markers but holds the parameter list
  \<open>(OrderCommand command)\<close>, the hook reports exactly six findings, all of them
  warnings (one per missing marker and one for the parameter), and ends with status 0.
\<close>

theorem endpoint_without_markers_six_warnings:
  assumes "contains ''Endpoint'' (basename p)" and "endswith (basename p) ''.cs''"
    and "\<not> contains ''.WithName('' t"
    and "\<not> contains ''.Produces<'' t" and "\<not> contains ''.Produces('' t"
    and "\<not> contains ''.WithTags('' t"
    and "\<not> contains ''.WithSummary('' t" and "\<not> contains ''.WithDescription('' t"
    and "\<not> contains ''.RequireAuthorization('' t"
    and "contains ''(OrderCommand command)'' t"
  shows "diagnostics (openapi_contract_run p t) =
     [(WARN, ''  Endpoint missing .WithName() - required for OpenAPI operationId mapping''),
      (WARN, ''  Endpoint missing .Produces<T>() declarations for response types''),
      (WARN, ''  Endpoint missing .WithTags() - required for OpenAPI tag grouping''),
      (WARN, ''  Endpoint missing .WithSummary() or .WithDescription() for OpenAPI documentation''),
      (WARN, ''  Endpoint missing .RequireAuthorization() - all endpoints must have explicit authorization''),
      (WARN, ''  Consider using a generated DTO from the OpenAPI contract instead of the command/query directly'')] \<and>
    length (diagnostics (openapi_contract_run p t)) = 6 \<and>
    status (openapi_contract_run p t) = 0"
proof -
  have ne: "t \<noteq> []"
    using assms(10) by (cases t) simp_all
  have ep: "is_endpoint_file p"
    using assms(1,2) by (simp add: is_endpoint_file_def)
  show ?thesis
    using assms(3-9) ne ep
    by (simp add: openapi_contract_run_def check_with_name_def check_produces_def
        check_with_tags_def check_summary_or_description_def check_require_authorization_def
        direct_parameter_found [OF assms(10)])
qed

lemma endpoint_example:
  "contains ''Endpoint'' (basename ''src/Api/Endpoints/OrderEndpoint.cs'') \<and>
   endswith (basename ''src/Api/Endpoints/OrderEndpoint.cs'') ''.cs'' \<and>
   \<not> contains ''.WithName('' ''app.MapPost(route, (OrderCommand command) => bus.Send(command));'' \<and>
   \<not> contains ''.Produces<'' ''app.MapPost(route, (OrderCommand command) => bus.Send(command));'' \<and>
   \<not> contains ''.Produces('' ''app.MapPost(route, (OrderCommand command) => bus.Send(command));'' \<and>
   \<not> contains ''.WithTags('' ''app.MapPost(route, (OrderCommand command) => bus.Send(command));'' \<and>
   \<not> contains ''.WithSummary('' ''app.MapPost(route, (OrderCommand command) => bus.Send(command));'' \<and>
   \<not> contains ''.WithDescription('' ''app.MapPost(route, (OrderCommand command) => bus.Send(command));'' \<and>
   \<not> contains ''.RequireAuthorization('' ''app.MapPost(route, (OrderCommand command) => bus.Send(command));'' \<and>
   contains ''(OrderCommand command)'' ''app.MapPost(route, (OrderCommand command) => bus.Send(command));''"
  by code_simp

theorem endpoint_without_markers_six_warnings_witness:
  "contains ''Endpoint'' (basename ''src/Api/Endpoints/OrderEndpoint.cs'') \<and>
   endswith (basename ''src/Api/Endpoints/OrderEndpoint.cs'') ''.cs'' \<and>
   contains ''(OrderCommand command)'' ''app.MapPost(route, (OrderCommand command) => bus.Send(command));'' \<and>
   length (diagnostics (openapi_contract_run ''src/Api/Endpoints/OrderEndpoint.cs''
     ''app.MapPost(route, (OrderCommand command) => bus.Send(command));'')) = 6 \<and>
   status (openapi_contract_run ''src/Api/Endpoints/OrderEndpoint.cs''
     ''app.MapPost(route, (OrderCommand command) => bus.Send(command));'') = 0"
  using endpoint_example
    endpoint_without_markers_six_warnings [of "''src/Api/Endpoints/OrderEndpoint.cs''"
      "''app.MapPost(route, (OrderCommand command) => bus.Send(command));''"]
  by blast


section \<open>Independence of the set order\<close>

lemma sort_arrangement:
  fixes f :: "string \<Rightarrow> string"
  assumes "inj f" and "distinct e1" and "distinct e2" and "set e1 = set e2"
  shows "sort (map f (filter Q e1)) = sort (map f (filter Q e2))"
proof (rule sorted_distinct_set_unique)
  have inj: "inj_on f A" for A
    using assms(1) by (rule inj_on_subset) simp
  show "distinct (sort (map f (filter Q e1)))"
    using assms(2) by (simp add: distinct_map inj)
  show "distinct (sort (map f (filter Q e2)))"
    using assms(3) by (simp add: distinct_map inj)
  show "set (sort (map f (filter Q e1))) = set (sort (map f (filter Q e2)))"
    using assms(4) by simp
qed simp_all

lemma empty_arrangement:
  assumes "set e1 = set e2"
  shows "(map f (filter Q e1) = []) = (map f (filter Q e2) = [])"
  using assms by (simp add: filter_empty_conv)

lemma check_parameter_documentation_order:
  assumes "valid_order ord1" and "valid_order ord2"
  shows "check_parameter_documentation ord1 t = check_parameter_documentation ord2 t"
proof -
  define params where
    "params = filter (\<lambda>p. p \<notin> set builtin) (remdups (re_findall sql_param_pattern t))"
  define Q where
    "Q = (\<lambda>param. \<not> contains (lower param) (lower (join nl (comment_section (splitlines t)))))"
  define f :: "string \<Rightarrow> string" where "f = (\<lambda>param. ''@'' @ param)"
  have d: "distinct params" by (simp add: params_def)
  from assms d have 1: "distinct (ord1 params)" "distinct (ord2 params)"
    and 2: "set (ord1 params) = set (ord2 params)"
    by (simp_all add: valid_order_def)
  have "inj f" by (simp add: f_def inj_on_def)
  then have s: "sort (map f (filter Q (ord1 params))) = sort (map f (filter Q (ord2 params)))"
    using 1 2 by (rule sort_arrangement)
  have e: "(map f (filter Q (ord1 params)) = []) = (map f (filter Q (ord2 params)) = [])"
    using 2 by (rule empty_arrangement)
  show ?thesis
    unfolding check_parameter_documentation_def Let_def params_def [symmetric]
      Q_def [symmetric] f_def [symmetric]
    by (simp only: s e)
qed

lemma sql_format_run_order:
  assumes "valid_order ord1" and "valid_order ord2"
  shows "sql_format_run ord1 = sql_format_run ord2"
  by (intro ext) (simp add: sql_format_run_def check_parameter_documentation_order [OF assms])

text \<open>
  Claim C8: the findings, their order, the printed lines and the status of every hook
  are determined by the path and the text.  The one place where something else could
  enter is the loop over a Python set in the SQL hook; the names it collects are sorted
  before they are printed, so any two ways of visiting the set give the same result.
  The same holds of \<open>main\<close> on any input.
\<close>

theorem result_independent_of_set_order:
  assumes "valid_order ord1" and "valid_order ord2"
  shows "run_hook ord1 h p t = run_hook ord2 h p t \<and>
         hook_main ord1 h stdin = hook_main ord2 h stdin"
  by (cases h) (simp_all add: sql_format_main_def sql_format_run_order [OF assms])

lemma valid_order_examples: "valid_order id \<and> valid_order rev"
  by (simp add: valid_order_def)

theorem result_independent_of_set_order_witness:
  "valid_order id \<and> valid_order rev \<and>
   run_hook id SqlFormat ''src/Infrastructure/Sql/by_key.sql''
     (''-- by key'' @ nl @ ''SELECT * FROM t WHERE a = @zeta AND b = @alpha'') =
   run_hook rev SqlFormat ''src/Infrastructure/Sql/by_key.sql''
     (''-- by key'' @ nl @ ''SELECT * FROM t WHERE a = @zeta AND b = @alpha'')"
  using valid_order_examples
    result_independent_of_set_order [of id rev SqlFormat "''src/Infrastructure/Sql/by_key.sql''"
      "''-- by key'' @ nl @ ''SELECT * FROM t WHERE a = @zeta AND b = @alpha''"]
  by blast


section \<open>Line numbers of the findings\<close>

lemma line_attributedI:
  assumes "1 \<le> i" and "i \<le> n" and "startswith m (line_tag i)"
  shows "line_attributed n m"
proof -
  have "i \<in> set [1..<Suc n]"
    using assms(1,2) by (simp del: upt_Suc)
  then show ?thesis
    unfolding line_attributed_def list_ex_iff using assms(3) by blast
qed

lemma startswith_tag [simp]: "startswith (line_tag i @ rest) (line_tag i)"
  by (simp add: startswith_def)

lemma enumerate_bounds:
  "(i, l) \<in> set (enumerate k ls) \<Longrightarrow> k \<le> i \<and> i < k + length ls"
  by (simp add: in_set_enumerate_eq add.commute)

lemma var_usage_line_tag: "m \<in> set (var_usage_line i l) \<Longrightarrow> startswith m (line_tag i)"
  by (auto simp add: var_usage_line_def Let_def split: if_splits)

lemma xml_docs_line_tag: "m \<in> set (xml_docs_line ls i l) \<Longrightarrow> startswith m (line_tag (i + 1))"
  by (auto simp add: xml_docs_line_def Let_def split: if_splits)

lemma cancellation_token_line_tag:
  "m \<in> set (cancellation_token_line i l) \<Longrightarrow> startswith m (line_tag i)"
  by (auto simp add: cancellation_token_line_def Let_def split: if_splits option.splits)

lemma sealed_record_line_tag:
  "m \<in> set (sealed_record_line i l) \<Longrightarrow> startswith m (line_tag i)"
  by (auto simp add: sealed_record_line_def Let_def split: if_splits option.splits)

lemma string_interpolation_line_tag:
  "m \<in> set (string_interpolation_line ls i l) \<Longrightarrow>
     startswith m (line_tag i) \<or> (i < length ls \<and> startswith m (line_tag (i + 1)))"
  by (auto simp add: string_interpolation_line_def Let_def split: if_splits)

lemma pii_line_tag: "m \<in> set (pii_line i l) \<Longrightarrow> startswith m (line_tag i)"
  by (auto simp add: pii_line_def split: if_splits)

lemma pii_loop_tag:
  "m \<in> set (pii_loop a d xs) \<Longrightarrow> \<exists>(i, l) \<in> set xs. startswith m (line_tag i)"
proof (induction xs arbitrary: a d)
  case Nil
  then show ?case by simp
next
  case (Cons x xs)
  obtain i l where x: "x = (i, l)" by (cases x)
  from Cons.prems consider "m \<in> set (pii_line i l)" | a' d' where "m \<in> set (pii_loop a' d' xs)"
    by (auto simp add: x Let_def split: if_splits)
  then show ?case
  proof cases
    case 1
    then show ?thesis using pii_line_tag by (auto simp add: x)
  next
    case 2
    with Cons.IH show ?thesis by auto
  qed
qed

lemma string_concatenation_line_tag:
  "m \<in> set (string_concatenation_line i l) \<Longrightarrow> startswith m (line_tag i)"
  by (auto simp add: string_concatenation_line_def Let_def split: if_splits)

lemma where_line_tag: "m \<in> set (where_line i l) \<Longrightarrow> startswith m (line_tag i)"
  by (auto simp add: where_line_def Let_def split: if_splits option.splits)

lemma where_loop_tag:
  "m \<in> set (where_loop a xs) \<Longrightarrow> \<exists>(i, l) \<in> set xs. startswith m (line_tag i)"
proof (induction xs arbitrary: a)
  case Nil
  then show ?case by simp
next
  case (Cons x xs)
  obtain i l where x: "x = (i, l)" by (cases x)
  from Cons.prems consider "m \<in> set (where_line i l)" | a' where "m \<in> set (where_loop a' xs)"
    by (auto simp add: x Let_def split: if_splits)
  then show ?case
  proof cases
    case 1
    then show ?thesis using where_line_tag by (auto simp add: x)
  next
    case 2
    with Cons.IH show ?thesis by auto
  qed
qed


lemma usings_line_number: "(ln, ns) \<in> set (usings_line i l) \<Longrightarrow> ln = i"
  by (auto simp add: usings_line_def Let_def split: option.splits)

lemma extract_usings_bounds:
  assumes "(ln, ns) \<in> set (extract_usings t)"
  shows "1 \<le> ln \<and> ln \<le> length (splitlines t)"
proof -
  from assms obtain i l where il: "(i, l) \<in> set (enumerate 1 (splitlines t))"
    and m: "(ln, ns) \<in> set (usings_line i l)"
    by (auto simp add: extract_usings_def)
  from m have "ln = i" by (rule usings_line_number)
  with enumerate_bounds [OF il] show ?thesis by simp
qed

lemma message_tags [simp]:
  "startswith (domain_message ln ns) (line_tag ln)"
  "startswith (application_message ln ns) (line_tag ln)"
  "startswith (api_message ln ns) (line_tag ln)"
  by (simp_all add: domain_message_def application_message_def api_message_def)

lemma domain_layer_tag:
  assumes "d \<in> set (check_domain_layer us p)"
  shows "\<exists>(ln, ns) \<in> set us. startswith (snd d) (line_tag ln)"
proof -
  from assms obtain ln ns where "(ln, ns) \<in> set us" and "snd d = domain_message ln ns"
    by (fastforce simp add: check_domain_layer_def split: if_splits)
  then show ?thesis by force
qed

lemma application_layer_tag:
  assumes "d \<in> set (check_application_layer us p)"
  shows "\<exists>(ln, ns) \<in> set us. startswith (snd d) (line_tag ln)"
proof -
  from assms obtain ln ns where "(ln, ns) \<in> set us" and "snd d = application_message ln ns"
    by (fastforce simp add: check_application_layer_def Let_def split: if_splits)
  then show ?thesis by force
qed

lemma api_layer_tag:
  assumes "d \<in> set (check_api_layer us p)"
  shows "\<exists>(ln, ns) \<in> set us. startswith (snd d) (line_tag ln)"
proof -
  from assms obtain ln ns where "(ln, ns) \<in> set us" and "snd d = api_message ln ns"
    by (fastforce simp add: check_api_layer_def split: if_splits)
  then show ?thesis by force
qed

lemma layer_violations_tag:
  "d \<in> set (layer_violations layer us p) \<Longrightarrow> \<exists>(ln, ns) \<in> set us. startswith (snd d) (line_tag ln)"
  by (cases "layer = ''Domain''"; cases "layer = ''Application''"; cases "layer = ''Api''")
     (simp_all add: layer_violations_def domain_layer_tag application_layer_tag api_layer_tag)

lemma layer_violations_attributed:
  assumes "d \<in> set (layer_violations layer (extract_usings t) p)"
  shows "line_attributed (length (splitlines t)) (snd d)"
proof -
  from layer_violations_tag [OF assms] obtain ln ns
    where u: "(ln, ns) \<in> set (extract_usings t)" and s: "startswith (snd d) (line_tag ln)"
    by auto
  from extract_usings_bounds [OF u] s show ?thesis
    by (auto intro: line_attributedI)
qed

lemma check_var_usage_attributed:
  assumes "m \<in> set (check_var_usage t)"
  shows "line_attributed (length (splitlines t)) m"
proof -
  from assms obtain i l where il: "(i, l) \<in> set (enumerate 1 (splitlines t))"
    and m: "m \<in> set (var_usage_line i l)"
    by (auto simp add: check_var_usage_def)
  from enumerate_bounds [OF il] var_usage_line_tag [OF m] show ?thesis
    by (auto intro: line_attributedI)
qed

lemma check_xml_docs_attributed:
  assumes "m \<in> set (check_xml_docs t)"
  shows "line_attributed (length (splitlines t)) m"
proof -
  from assms obtain i l where il: "(i, l) \<in> set (enumerate 0 (splitlines t))"
    and m: "m \<in> set (xml_docs_line (splitlines t) i l)"
    by (auto simp add: check_xml_docs_def Let_def)
  from enumerate_bounds [OF il] have "1 \<le> i + 1" and "i + 1 \<le> length (splitlines t)"
    by simp_all
  then show ?thesis
    using xml_docs_line_tag [OF m] by (rule line_attributedI)
qed

lemma check_cancellation_token_attributed:
  assumes "m \<in> set (check_cancellation_token t)"
  shows "line_attributed (length (splitlines t)) m"
proof -
  from assms obtain i l where il: "(i, l) \<in> set (enumerate 1 (splitlines t))"
    and m: "m \<in> set (cancellation_token_line i l)"
    by (auto simp add: check_cancellation_token_def)
  from enumerate_bounds [OF il] cancellation_token_line_tag [OF m] show ?thesis
    by (auto intro: line_attributedI)
qed

lemma check_sealed_record_attributed:
  assumes "m \<in> set (check_sealed_record t)"
  shows "line_attributed (length (splitlines t)) m"
proof -
  from assms obtain i l where il: "(i, l) \<in> set (enumerate 1 (splitlines t))"
    and m: "m \<in> set (sealed_record_line i l)"
    by (auto simp add: check_sealed_record_def)
  from enumerate_bounds [OF il] sealed_record_line_tag [OF m] show ?thesis
    by (auto intro: line_attributedI)
qed

lemma check_string_interpolation_attributed:
  assumes "m \<in> set (check_string_interpolation t)"
  shows "line_attributed (length (splitlines t)) m"
proof -
  from assms obtain i l where il: "(i, l) \<in> set (enumerate 1 (splitlines t))"
    and m: "m \<in> set (string_interpolation_line (splitlines t) i l)"
    by (auto simp add: check_string_interpolation_def Let_def)
  from string_interpolation_line_tag [OF m] show ?thesis
  proof
    assume "startswith m (line_tag i)"
    with enumerate_bounds [OF il] show ?thesis
      by (auto intro: line_attributedI)
  next
    assume n: "i < length (splitlines t) \<and> startswith m (line_tag (i + 1))"
    then have "1 \<le> i + 1" and "i + 1 \<le> length (splitlines t)"
      by simp_all
    then show ?thesis
      using n by (blast intro: line_attributedI)
  qed
qed

lemma check_pii_parameters_attributed:
  assumes "m \<in> set (check_pii_parameters t)"
  shows "line_attributed (length (splitlines t)) m"
proof -
  from assms pii_loop_tag obtain i l where il: "(i, l) \<in> set (enumerate 1 (splitlines t))"
    and m: "startswith m (line_tag i)"
    unfolding check_pii_parameters_def by fast
  from enumerate_bounds [OF il] m show ?thesis
    by (auto intro: line_attributedI)
qed

lemma check_string_concatenation_attributed:
  assumes "m \<in> set (check_string_concatenation t)"
  shows "line_attributed (length (splitlines t)) m"
proof -
  from assms obtain i l where il: "(i, l) \<in> set (enumerate 1 (splitlines t))"
    and m: "m \<in> set (string_concatenation_line i l)"
    by (auto simp add: check_string_concatenation_def)
  from enumerate_bounds [OF il] string_concatenation_line_tag [OF m] show ?thesis
    by (auto intro: line_attributedI)
qed

lemma check_non_parameterized_where_attributed:
  assumes "m \<in> set (check_non_parameterized_where t)"
  shows "line_attributed (length (splitlines t)) m"
proof -
  from assms where_loop_tag obtain i l where il: "(i, l) \<in> set (enumerate 1 (splitlines t))"
    and m: "startswith m (line_tag i)"
    unfolding check_non_parameterized_where_def by fast
  from enumerate_bounds [OF il] m show ?thesis
    by (auto intro: line_attributedI)
qed


lemma not_attributedI:
  assumes "\<And>i. \<not> startswith m (line_tag i)"
  shows "\<not> line_attributed n m"
  using assms by (simp add: line_attributed_def list_ex_iff)

lemma whole_file_findings_untagged:
  assumes "m \<in> set (check_with_name t @ check_produces t @ check_with_tags t @
                     check_summary_or_description t @ check_require_authorization t @
                     check_direct_command_query_parameter t @
                     check_header_comment t @ check_parameter_documentation ord t)"
  shows "\<not> startswith m (line_tag i)"
  using assms
  by (auto simp add: check_with_name_def check_produces_def check_with_tags_def
      check_summary_or_description_def check_require_authorization_def
      check_direct_command_query_parameter_def check_header_comment_def
      check_parameter_documentation_def Let_def startswith_def line_tag_def
      split: if_splits)

text \<open>
  Claim C5 says that every finding of every rule check carries a line.  The checks that
  look at the file as a whole do not write one: on an endpoint text without
  \<open>.WithName(\<close> the finding of \<open>check_with_name\<close> names no line, and the same holds of the
  SQL header check on a text that opens with no comment.
\<close>

theorem whole_file_finding_without_line:
  "check_with_name ''app.MapGet(route, handler);'' =
     [''  Endpoint missing .WithName() - required for OpenAPI operationId mapping''] \<and>
   \<not> line_attributed (length (splitlines ''app.MapGet(route, handler);''))
     ''  Endpoint missing .WithName() - required for OpenAPI operationId mapping'' \<and>
   check_header_comment ''SELECT 1'' =
     [''  SQL file is missing a header comment block. '' @
      ''Add a comment describing the query'' @ sq @ ''s purpose, parameters, and author.''] \<and>
   \<not> line_attributed (length (splitlines ''SELECT 1''))
     (''  SQL file is missing a header comment block. '' @
      ''Add a comment describing the query'' @ sq @ ''s purpose, parameters, and author.'')"
  by code_simp

text \<open>
  Claim C5, amended: every finding of a check that walks the text line by line (var
  usage, missing documentation, missing cancellation token, sealed record, log
  interpolation, sensitive log data, SQL string concatenation, SQL WHERE literals, and
  the three layer checks on the imports of the text) opens with the tag of a line
  between 1 and the number of lines of the text.  Hence so does every finding of the
  coding standards, logging and layer hooks, and every BLOCK finding of the SQL hook.
  The findings of the whole-file checks (the five marker checks and the parameter check
  of endpoint files, the SQL header and parameter-documentation checks) never open with
  a line tag.
\<close>

theorem line_scanning_findings_have_lines:
  "(\<forall>m \<in> set (check_var_usage t @ check_xml_docs t @ check_cancellation_token t @
                check_sealed_record t @ check_string_interpolation t @
                check_pii_parameters t @ check_string_concatenation t @
                check_non_parameterized_where t @
                map snd (check_domain_layer (extract_usings t) p) @
                map snd (check_application_layer (extract_usings t) p) @
                map snd (check_api_layer (extract_usings t) p)).
      line_attributed (length (splitlines t)) m) \<and>
   (\<forall>d \<in> set (diagnostics (run_hook ord h p t)).
      h = CodingStandards \<or> h = SerilogEnforcer \<or> h = LayerDependency \<or>
      (h = SqlFormat \<and> fst d = BLOCK) \<longrightarrow>
      line_attributed (length (splitlines t)) (snd d)) \<and>
   (\<forall>m \<in> set (check_with_name t @ check_produces t @ check_with_tags t @
                check_summary_or_description t @ check_require_authorization t @
                check_direct_command_query_parameter t @
                check_header_comment t @ check_parameter_documentation ord t).
      \<not> line_attributed n m)"
proof -
  let ?n = "length (splitlines t)"
  have dom: "line_attributed ?n (snd d)" if "d \<in> set (check_domain_layer (extract_usings t) p)" for d
    using layer_violations_attributed [of d "''Domain''" t p] that
    by (simp add: layer_violations_def)
  have app: "line_attributed ?n (snd d)" if "d \<in> set (check_application_layer (extract_usings t) p)" for d
    using layer_violations_attributed [of d "''Application''" t p] that
    by (simp add: layer_violations_def)
  have api: "line_attributed ?n (snd d)" if "d \<in> set (check_api_layer (extract_usings t) p)" for d
    using layer_violations_attributed [of d "''Api''" t p] that
    by (simp add: layer_violations_def)
  have 1: "\<forall>m \<in> set (check_var_usage t @ check_xml_docs t @ check_cancellation_token t @
                check_sealed_record t @ check_string_interpolation t @
                check_pii_parameters t @ check_string_concatenation t @
                check_non_parameterized_where t @
                map snd (check_domain_layer (extract_usings t) p) @
                map snd (check_application_layer (extract_usings t) p) @
                map snd (check_api_layer (extract_usings t) p)).
      line_attributed ?n m"
    using check_var_usage_attributed check_xml_docs_attributed
      check_cancellation_token_attributed check_sealed_record_attributed
      check_string_interpolation_attributed check_pii_parameters_attributed
      check_string_concatenation_attributed check_non_parameterized_where_attributed
      dom app api
    by auto
  have cs: "line_attributed ?n (snd d)" if "d \<in> set (diagnostics (coding_standards_run p t))" for d
    using that check_var_usage_attributed check_xml_docs_attributed
      check_cancellation_token_attributed check_sealed_record_attributed
    by (auto simp add: coding_standards_run_def split: if_splits)
  have se: "line_attributed ?n (snd d)" if "d \<in> set (diagnostics (serilog_enforcer_run p t))" for d
    using that check_string_interpolation_attributed check_pii_parameters_attributed
    by (auto simp add: serilog_enforcer_run_def split: if_splits)
  have la: "line_attributed ?n (snd d)" if "d \<in> set (diagnostics (layer_dependency_run p t))" for d
  proof -
    from that layer_dependency_diagnostics [of p t] obtain layer
      where "d \<in> set (layer_violations layer (extract_usings t) p)"
      by auto
    then show ?thesis by (rule layer_violations_attributed)
  qed
  have sb: "line_attributed ?n (snd d)"
    if "d \<in> set (diagnostics (sql_format_run ord p t))" and "fst d = BLOCK" for d
    using that sql_format_diagnostics [of ord p t]
      check_string_concatenation_attributed check_non_parameterized_where_attributed
    by auto
  have 2: "\<forall>d \<in> set (diagnostics (run_hook ord h p t)).
      h = CodingStandards \<or> h = SerilogEnforcer \<or> h = LayerDependency \<or>
      (h = SqlFormat \<and> fst d = BLOCK) \<longrightarrow>
      line_attributed ?n (snd d)"
    using cs se la sb by (cases h) auto
  have 3: "\<forall>m \<in> set (check_with_name t @ check_produces t @ check_with_tags t @
                check_summary_or_description t @ check_require_authorization t @
                check_direct_command_query_parameter t @
                check_header_comment t @ check_parameter_documentation ord t).
      \<not> line_attributed n m"
    using whole_file_findings_untagged not_attributedI by blast
  from 1 2 3 show ?thesis by blast
qed

lemma var_finding_example:
  "''  Line 2: Use explicit type instead of '' @ sq @ ''var'' @ sq @ ''. Lextech standard forbids var usage.''
     \<in> set (check_var_usage (''int a = 1;'' @ nl @ ''var b = 2;''))"
  by code_simp

theorem line_scanning_findings_have_lines_witness:
  "''  Line 2: Use explicit type instead of '' @ sq @ ''var'' @ sq @ ''. Lextech standard forbids var usage.''
     \<in> set (check_var_usage (''int a = 1;'' @ nl @ ''var b = 2;'')) \<and>
   line_attributed (length (splitlines (''int a = 1;'' @ nl @ ''var b = 2;'')))
     (''  Line 2: Use explicit type instead of '' @ sq @ ''var'' @ sq @ ''. Lextech standard forbids var usage.'')"
  using var_finding_example
    line_scanning_findings_have_lines [of "''int a = 1;'' @ nl @ ''var b = 2;''" "[]" id CodingStandards 0]
  by auto

end
